theory Spec2Isabelle
  imports Main
begin

section \<open>Strings\<close>

text \<open>
  A JavaScript string is modelled as a list of 8-bit characters, read as the code points
  0..255. The character classes below are the ones the regular expressions of
  \<^verbatim>\<open>src/index.ts\<close> use, restricted to that range.
\<close>

abbreviation NL :: char where "NL \<equiv> CHR 0x0A"
abbreviation HASH :: char where "HASH \<equiv> CHR ''#''"
abbreviation SLASH :: char where "SLASH \<equiv> CHR ''/''"

definition code :: "char \<Rightarrow> nat" where
  "code c = of_char c"

text \<open>The class \<^verbatim>\<open>\w\<close>: letters, digits and the underscore.\<close>

definition isUpper :: "char \<Rightarrow> bool" where
  "isUpper c = (65 \<le> code c \<and> code c \<le> 90)"

definition isLower :: "char \<Rightarrow> bool" where
  "isLower c = (97 \<le> code c \<and> code c \<le> 122)"

definition isDigit :: "char \<Rightarrow> bool" where
  "isDigit c = (48 \<le> code c \<and> code c \<le> 57)"

definition isWordChar :: "char \<Rightarrow> bool" where
  "isWordChar c = (isUpper c \<or> isLower c \<or> isDigit c \<or> c = CHR ''_'')"

text \<open>
  The class \<^verbatim>\<open>\s\<close>, which is also what \<^verbatim>\<open>String.prototype.trim\<close> removes: tab, line
  feed, vertical tab, form feed, carriage return, space and the no-break space.
\<close>

definition isSpace :: "char \<Rightarrow> bool" where
  "isSpace c = ((9 \<le> code c \<and> code c \<le> 13) \<or> code c = 32 \<or> code c = 160)"

text \<open>A line terminator, after which \<^verbatim>\<open>^\<close> matches under the \<^verbatim>\<open>m\<close> flag.\<close>

definition isLineTerminator :: "char \<Rightarrow> bool" where
  "isLineTerminator c = (code c = 10 \<or> code c = 13)"

definition trim :: "string \<Rightarrow> string" where
  "trim s = rev (dropWhile isSpace (rev (dropWhile isSpace s)))"

text \<open>
  \<^verbatim>\<open>toLowerCase\<close> on the code points 0..255: the ASCII capitals and the Latin-1 capitals
  (0xC0..0xDE without the multiplication sign 0xD7) move up by 32.
\<close>

definition toLowerChar :: "char \<Rightarrow> char" where
  "toLowerChar c =
     (if isUpper c \<or> (192 \<le> code c \<and> code c \<le> 222 \<and> code c \<noteq> 215)
      then char_of (code c + 32) else c)"

definition toLowerCase :: "string \<Rightarrow> string" where
  "toLowerCase s = map toLowerChar s"

definition startsWith :: "string \<Rightarrow> string \<Rightarrow> bool" where
  "startsWith s p = (take (length p) s = p)"

text \<open>\<^verbatim>\<open>"#".repeat(n)\<close>\<close>

definition hashes :: "nat \<Rightarrow> string" where
  "hashes n = replicate n HASH"

section \<open>The slug of a title\<close>

text \<open>
  \<^verbatim>\<open>
  export function gitHubLink(val: string): string {
    const value = val || "";
    return value
      .trim()
      .toLowerCase()
      .replace(/[^\w\- ]+/g, "")
      .replace(/\s/g, "-")
      .replace(/-+$/, "");
  }
  \<close>
  The three replacements are named after what they do.
\<close>

definition keepSlugChars :: "string \<Rightarrow> string" where
  "keepSlugChars s = filter (\<lambda>c. isWordChar c \<or> c = CHR ''-'' \<or> c = CHR '' '') s"

definition spacesToHyphens :: "string \<Rightarrow> string" where
  "spacesToHyphens s = map (\<lambda>c. if isSpace c then CHR ''-'' else c) s"

definition stripTrailingHyphens :: "string \<Rightarrow> string" where
  "stripTrailingHyphens s = rev (dropWhile (\<lambda>c. c = CHR ''-'') (rev s))"

definition gitHubLink :: "string \<Rightarrow> string" where
  "gitHubLink val =
     stripTrailingHyphens (spacesToHyphens (keepSlugChars (toLowerCase (trim val))))"

section \<open>The heading level rewriter\<close>

text \<open>
  \<^verbatim>\<open>body.replace(/(^#+)/gm, `$1${"#".repeat(level)}`)\<close> appends \<open>level\<close> hashes to every
  maximal run of hashes that starts a line. The scan below reads the body once; its
  state says whether the next character starts a line, continues such a run, or neither.
\<close>

datatype scan = LineStart | InRun | Inside

definition after :: "char \<Rightarrow> scan" where
  "after c = (if isLineTerminator c then LineStart else Inside)"

fun appendHashes :: "nat \<Rightarrow> scan \<Rightarrow> string \<Rightarrow> string" where
  "appendHashes n LineStart [] = []"
| "appendHashes n InRun [] = hashes n"
| "appendHashes n Inside [] = []"
| "appendHashes n LineStart (c # cs) =
     (if c = HASH then c # appendHashes n InRun cs else c # appendHashes n (after c) cs)"
| "appendHashes n InRun (c # cs) =
     (if c = HASH then c # appendHashes n InRun cs
      else hashes n @ c # appendHashes n (after c) cs)"
| "appendHashes n Inside (c # cs) = c # appendHashes n (after c) cs"

text \<open>
  \<^verbatim>\<open>
  private decreaseTitleLevelsBy(body: string, level: number): string {
    return !this.decreaseTitleLevels || level <= 0 ? body : body.replace(...);
  }
  \<close>
  The only field of the concatenator it reads is \<^verbatim>\<open>decreaseTitleLevels\<close>, passed here as
  the first argument.
\<close>

definition decreaseTitleLevelsBy :: "bool \<Rightarrow> string \<Rightarrow> int \<Rightarrow> string" where
  "decreaseTitleLevelsBy decrease body level =
     (if \<not> decrease \<or> level \<le> 0 then body else appendHashes (nat level) LineStart body)"

section \<open>Paths\<close>

text \<open>
  \<^verbatim>\<open>join\<close>, \<^verbatim>\<open>relative\<close>, \<^verbatim>\<open>dirname\<close>, \<^verbatim>\<open>basename\<close>, \<^verbatim>\<open>extname\<close> and \<^verbatim>\<open>sep\<close> are
  those of Node's \<^verbatim>\<open>path\<close> module on a POSIX system. They are modelled on the segments
  of a path, which is what Node's character loops compute.
\<close>

definition sep :: string where
  "sep = ''/''"

text \<open>\<^verbatim>\<open>s.split(c)\<close> for a one-character separator: the empty string gives one empty part.\<close>

fun split :: "char \<Rightarrow> string \<Rightarrow> string list" where
  "split c [] = [[]]"
| "split c (x # xs) =
     (if x = c then [] # split c xs
      else (case split c xs of [] \<Rightarrow> [[x]] | w # ws \<Rightarrow> (x # w) # ws))"

text \<open>\<^verbatim>\<open>parts.join(s)\<close>\<close>

fun joinWith :: "string \<Rightarrow> string list \<Rightarrow> string" where
  "joinWith s [] = []"
| "joinWith s [x] = x"
| "joinWith s (x # y # ys) = x @ s @ joinWith s (y # ys)"

text \<open>
  Node's \<^verbatim>\<open>normalizeString\<close>: empty segments and \<^verbatim>\<open>.\<close> are dropped, \<^verbatim>\<open>..\<close> removes the
  segment before it, and is kept only above the start of a relative path. The second
  argument is the stack of segments kept so far, the last one first.
\<close>

fun normalizeSegments :: "bool \<Rightarrow> string list \<Rightarrow> string list \<Rightarrow> string list" where
  "normalizeSegments allowAboveRoot acc [] = rev acc"
| "normalizeSegments allowAboveRoot acc (s # ss) =
     (if s = [] \<or> s = ''.'' then normalizeSegments allowAboveRoot acc ss
      else if s = ''..'' then
        (if acc \<noteq> [] \<and> hd acc \<noteq> ''..'' then normalizeSegments allowAboveRoot (tl acc) ss
         else if allowAboveRoot then normalizeSegments allowAboveRoot (''..'' # acc) ss
         else normalizeSegments allowAboveRoot acc ss)
      else normalizeSegments allowAboveRoot (s # acc) ss)"

definition normalizeString :: "string \<Rightarrow> bool \<Rightarrow> string" where
  "normalizeString p allowAboveRoot =
     joinWith ''/'' (normalizeSegments allowAboveRoot [] (split SLASH p))"

definition isAbsolute :: "string \<Rightarrow> bool" where
  "isAbsolute p = (p \<noteq> [] \<and> hd p = SLASH)"

definition normalize :: "string \<Rightarrow> string" where
  "normalize p =
     (if p = [] then ''.''
      else
        let trailingSeparator = (last p = SLASH);
            q = normalizeString p (\<not> isAbsolute p)
        in if q = [] then (if isAbsolute p then ''/'' else if trailingSeparator then ''./'' else ''.'')
           else (if isAbsolute p then ''/'' else []) @ q @ (if trailingSeparator then ''/'' else []))"

text \<open>\<^verbatim>\<open>join(a, b)\<close>: the non-empty arguments, joined by a slash and normalized.\<close>

definition join :: "string \<Rightarrow> string \<Rightarrow> string" where
  "join a b =
     (if a = [] \<and> b = [] then ''.''
      else normalize (if a = [] then b else if b = [] then a else a @ ''/'' @ b))"

text \<open>
  \<^verbatim>\<open>resolve(p)\<close> makes \<open>p\<close> absolute against the working directory of the process, which
  is the first argument here.
\<close>

definition resolve :: "string \<Rightarrow> string \<Rightarrow> string" where
  "resolve cwd p =
     (let full = (if isAbsolute p then p else cwd @ ''/'' @ p);
          q = normalizeString full (\<not> isAbsolute full)
      in if isAbsolute full then ''/'' @ q else if q \<noteq> [] then q else ''.'')"

fun dropCommon :: "string list \<Rightarrow> string list \<Rightarrow> string list \<times> string list" where
  "dropCommon (x # xs) (y # ys) = (if x = y then dropCommon xs ys else (x # xs, y # ys))"
| "dropCommon xs ys = (xs, ys)"

definition segments :: "string \<Rightarrow> string list" where
  "segments p = filter (\<lambda>s. s \<noteq> []) (split SLASH p)"

text \<open>
  \<^verbatim>\<open>relative(from, to)\<close>: one \<^verbatim>\<open>..\<close> for every segment of \<open>from\<close> below the common
  ancestor, then the segments of \<open>to\<close> below it.
\<close>

definition relative :: "string \<Rightarrow> string \<Rightarrow> string \<Rightarrow> string" where
  "relative cwd from to =
     (if from = to then []
      else
        let f = resolve cwd from; t = resolve cwd to
        in if f = t then []
           else (case dropCommon (segments f) (segments t) of
                   (fs, ts) \<Rightarrow> joinWith ''/'' (replicate (length fs) ''..'' @ ts)))"

text \<open>
  \<^verbatim>\<open>dirname(p)\<close>: Node scans from the end down to index 1, skips the trailing slashes and
  the last segment, and cuts at the slash it then meets.
\<close>

definition dirname :: "string \<Rightarrow> string" where
  "dirname p =
     (if p = [] then ''.''
      else
        let r = dropWhile (\<lambda>c. c \<noteq> SLASH) (dropWhile (\<lambda>c. c = SLASH) (rev (tl p)))
        in if r = [] then (if isAbsolute p then ''/'' else ''.'')
           else if isAbsolute p \<and> length r = 1 then ''//''
           else take (length r) p)"

text \<open>The last segment of a path, trailing slashes apart.\<close>

definition lastSegment :: "string \<Rightarrow> string" where
  "lastSegment p = rev (takeWhile (\<lambda>c. c \<noteq> SLASH) (dropWhile (\<lambda>c. c = SLASH) (rev p)))"

text \<open>
  \<^verbatim>\<open>extname(p)\<close>: from the last dot of the last segment on; empty when there is no dot,
  when the dot is the first character of the segment, or when the segment is \<^verbatim>\<open>..\<close>.
\<close>

definition extname :: "string \<Rightarrow> string" where
  "extname p =
     (let b = lastSegment p;
          ext = rev (takeWhile (\<lambda>c. c \<noteq> CHR ''.'') (rev b));
          stem = take (length b - length ext - 1) b
      in if CHR ''.'' \<notin> set b \<or> stem = [] \<or> b = ''..'' then [] else CHR ''.'' # ext)"

text \<open>
  \<^verbatim>\<open>basename(p, ext)\<close>: the last segment, without \<open>ext\<close> when it ends with it and is not
  \<open>ext\<close> itself.
\<close>

definition endsWith :: "string \<Rightarrow> string \<Rightarrow> bool" where
  "endsWith s e = (length e \<le> length s \<and> drop (length s - length e) s = e)"

definition basename :: "string \<Rightarrow> string \<Rightarrow> string" where
  "basename p ext =
     (let b = lastSegment p
      in if ext \<noteq> [] \<and> length ext \<le> length p then
           (if ext = p then []
            else if endsWith b ext \<and> b \<noteq> ext then take (length b - length ext) b
            else b)
         else b)"

section \<open>Titles from names\<close>

text \<open>
  \<^verbatim>\<open>startCase\<close> is lodash's: the words of a name, each with its first letter in upper
  case, joined by single spaces. Before the words are taken, \<^verbatim>\<open>deburr\<close> turns the Latin-1
  letters into letters of ASCII and the apostrophes are removed.
\<close>

definition deburrChar :: "char \<Rightarrow> string" where
  "deburrChar c =
     (let n = code c in
      if 192 \<le> n \<and> n \<le> 197 then ''A'' else if n = 198 then ''Ae''
      else if n = 199 then ''C'' else if 200 \<le> n \<and> n \<le> 203 then ''E''
      else if 204 \<le> n \<and> n \<le> 207 then ''I'' else if n = 208 then ''D''
      else if n = 209 then ''N'' else if 210 \<le> n \<and> n \<le> 214 then ''O''
      else if n = 216 then ''O'' else if 217 \<le> n \<and> n \<le> 220 then ''U''
      else if n = 221 then ''Y'' else if n = 222 then ''Th''
      else if n = 223 then ''ss'' else if 224 \<le> n \<and> n \<le> 229 then ''a''
      else if n = 230 then ''ae'' else if n = 231 then ''c''
      else if 232 \<le> n \<and> n \<le> 235 then ''e'' else if 236 \<le> n \<and> n \<le> 239 then ''i''
      else if n = 240 then ''d'' else if n = 241 then ''n''
      else if 242 \<le> n \<and> n \<le> 246 then ''o'' else if n = 248 then ''o''
      else if 249 \<le> n \<and> n \<le> 252 then ''u'' else if n = 253 then ''y''
      else if n = 254 then ''th'' else if n = 255 then ''y''
      else [c])"

definition deburr :: "string \<Rightarrow> string" where
  "deburr s = concat (map deburrChar s)"

text \<open>
  The words of lodash's \<^verbatim>\<open>words\<close> on a deburred string of the code points 0..255, where
  every character that is no letter of ASCII and no digit separates words. A word is a
  run of digits, a run of capitals, or an optional capital followed by small letters; a
  run of capitals ends before a capital that is followed by a small letter (\<^verbatim>\<open>XMLHttp\<close>
  gives \<^verbatim>\<open>XML\<close> and \<^verbatim>\<open>Http\<close>); and a run of digits takes an ordinal suffix with it
  (\<^verbatim>\<open>1st\<close>, \<^verbatim>\<open>2ND\<close>, \<^verbatim>\<open>4th\<close>).
\<close>

definition isAlnum :: "char \<Rightarrow> bool" where
  "isAlnum c = (isUpper c \<or> isLower c \<or> isDigit c)"

text \<open>
  Whether a word ends between the character \<open>p\<close> and the character \<open>c\<close> that follows it;
  \<open>cs\<close> is the text after \<open>c\<close>.
\<close>

definition wordBreak :: "char \<Rightarrow> char \<Rightarrow> string \<Rightarrow> bool" where
  "wordBreak p c cs =
     (isDigit p \<noteq> isDigit c
      \<or> (isLower p \<and> isUpper c)
      \<or> (isUpper p \<and> isUpper c \<and> cs \<noteq> [] \<and> isLower (hd cs)))"

text \<open>
  lodash's two patterns for ordinals,
  \<^verbatim>\<open>\d*(?:1st|2nd|3rd|(?![123])\dth)(?=\b|[A-Z_])\<close> and the same in capitals followed by
  \<^verbatim>\<open>(?=\b|[a-z_])\<close>: \<open>p\<close> is the last digit of the run and \<open>s\<close> the text after it.
\<close>

definition ordinalSuffix :: "char \<Rightarrow> string \<Rightarrow> string \<Rightarrow> string \<Rightarrow> string \<Rightarrow> string \<Rightarrow> bool" where
  "ordinalSuffix p s st nd rd th =
     ((p = CHR ''1'' \<and> take 2 s = st) \<or> (p = CHR ''2'' \<and> take 2 s = nd)
      \<or> (p = CHR ''3'' \<and> take 2 s = rd)
      \<or> (p \<noteq> CHR ''1'' \<and> p \<noteq> CHR ''2'' \<and> p \<noteq> CHR ''3'' \<and> take 2 s = th))"

definition ordinalAt :: "char \<Rightarrow> string \<Rightarrow> bool" where
  "ordinalAt p s =
     (isDigit p \<and>
      ((ordinalSuffix p s ''ST'' ''ND'' ''RD'' ''TH''
          \<and> (drop 2 s = [] \<or> \<not> (isUpper (hd (drop 2 s)) \<or> isDigit (hd (drop 2 s)))))
       \<or> (ordinalSuffix p s ''st'' ''nd'' ''rd'' ''th''
          \<and> (drop 2 s = [] \<or> \<not> (isLower (hd (drop 2 s)) \<or> isDigit (hd (drop 2 s)))))))"

definition flush :: "string \<Rightarrow> string list" where
  "flush cur = (if cur = [] then [] else [rev cur])"

text \<open>
  The first argument is the word being read, its last character first; the second is
  the number of characters of an ordinal suffix that are still to be taken, after which
  the word ends.
\<close>

fun wordsFrom :: "string \<Rightarrow> nat \<Rightarrow> string \<Rightarrow> string list" where
  "wordsFrom cur k [] = flush cur"
| "wordsFrom cur (Suc k) (c # cs) =
     (if k = 0 then flush (c # cur) @ wordsFrom [] 0 cs else wordsFrom (c # cur) k cs)"
| "wordsFrom cur 0 (c # cs) =
     (if \<not> isAlnum c then flush cur @ wordsFrom [] 0 cs
      else if cur \<noteq> [] \<and> ordinalAt (hd cur) (c # cs) then wordsFrom (c # cur) 1 cs
      else if cur \<noteq> [] \<and> wordBreak (hd cur) c cs then flush cur @ wordsFrom [c] 0 cs
      else wordsFrom (c # cur) 0 cs)"

definition upperFirst :: "string \<Rightarrow> string" where
  "upperFirst w =
     (case w of [] \<Rightarrow> []
      | c # cs \<Rightarrow> (if isLower c then char_of (code c - 32) else c) # cs)"

definition startCase :: "string \<Rightarrow> string" where
  "startCase s =
     joinWith '' ''
       (map upperFirst (wordsFrom [] 0 (filter (\<lambda>c. c \<noteq> CHR 0x27) (deburr s))))"

section \<open>The concatenator\<close>

text \<open>
  \<^verbatim>\<open>interface File { path: string; [key: string]: any; }\<close> with the two keys that
  \<^verbatim>\<open>front-matter\<close> adds and the code reads: the body and the attributes. An attribute
  value is a string here.
\<close>

record File =
  path :: string
  body :: string
  attributes :: "string \<rightharpoonup> string"

text \<open>The value type of \<^verbatim>\<open>fileTitleIndex\<close>: \<^verbatim>\<open>{ title: string; level: number; md: string }\<close>.\<close>

record TitleEntry =
  title :: string
  level :: int
  md :: string

text \<open>
  \<^verbatim>\<open>ConcatOptions\<close>: every option may be absent. The fixed fields of
  \<^verbatim>\<open>MarkDownConcatenator\<close> follow, under the names of the class but for its global
  \<^verbatim>\<open>title\<close>, here \<open>mainTitle\<close>; \<open>cwd\<close> is the working directory of the process, which
  \<^verbatim>\<open>relative\<close> reads.
\<close>

record ConcatOptions =
  opt_title :: "string option"
  opt_toc :: "bool option"
  opt_tocLevel :: "int option"
  opt_ignore :: "string list option"
  opt_include :: "string list option"
  opt_decreaseTitleLevels :: "bool option"
  opt_startTitleLevelAt :: "int option"
  opt_joinString :: "string option"
  opt_titleKey :: "string option"
  opt_fileNameAsTitle :: "bool option"
  opt_dirNameAsTitle :: "bool option"

record MarkDownConcatenator =
  cwd :: string
  dir :: string
  mainTitle :: "string option"
  toc :: bool
  tocLevel :: int
  ignoreGlobs :: "string list"
  includeGlobs :: "string list"
  decreaseTitleLevels :: bool
  startTitleLevelAt :: int
  titleKey :: "string option"
  fileNameAsTitle :: bool
  dirNameAsTitle :: bool
  joinString :: string

text \<open>The two fields of the class that change during a run.\<close>

record Titles =
  visitedDirs :: "string set"
  fileTitleIndex :: "string \<rightharpoonup> TitleEntry"

definition noTitles :: Titles where
  "noTitles = \<lparr>visitedDirs = {}, fileTitleIndex = Map.empty\<rparr>"

definition orElse :: "'a option \<Rightarrow> 'a \<Rightarrow> 'a" where
  "orElse v d = (case v of None \<Rightarrow> d | Some x \<Rightarrow> x)"

text \<open>
  The constructor, with the defaults of its parameter list. An empty \<^verbatim>\<open>joinString\<close> is
  falsy, as an absent one.
\<close>

definition constructor :: "string \<Rightarrow> string \<Rightarrow> ConcatOptions \<Rightarrow> MarkDownConcatenator" where
  "constructor wd d opts =
     \<lparr>cwd = wd,
      dir = d,
      mainTitle = opt_title opts,
      toc = orElse (opt_toc opts) False,
      tocLevel = orElse (opt_tocLevel opts) 3,
      ignoreGlobs = orElse (opt_ignore opts) [],
      includeGlobs = (if orElse (opt_include opts) [] \<noteq> [] then orElse (opt_include opts) []
                      else [''**/*.md'']),
      decreaseTitleLevels = orElse (opt_decreaseTitleLevels opts) False,
      startTitleLevelAt = orElse (opt_startTitleLevelAt opts) 1,
      titleKey = opt_titleKey opts,
      fileNameAsTitle = orElse (opt_fileNameAsTitle opts) False,
      dirNameAsTitle = orElse (opt_dirNameAsTitle opts) False,
      joinString = (case opt_joinString opts of
                      None \<Rightarrow> [NL]
                    | Some j \<Rightarrow> if j \<noteq> [] then [NL] @ j @ [NL] else [NL])\<rparr>"

definition noOptions :: ConcatOptions where
  "noOptions =
     \<lparr>opt_title = None, opt_toc = None, opt_tocLevel = None, opt_ignore = None,
      opt_include = None, opt_decreaseTitleLevels = None, opt_startTitleLevelAt = None,
      opt_joinString = None, opt_titleKey = None, opt_fileNameAsTitle = None,
      opt_dirNameAsTitle = None\<rparr>"

text \<open>
  What a run can throw: the error of \<^verbatim>\<open>getTitle\<close>, and the \<^verbatim>\<open>RangeError\<close> of
  \<^verbatim>\<open>String.prototype.repeat\<close> on a negative count.
\<close>

datatype error = CannotGetTitle string | InvalidCount int

definition repeatHash :: "int \<Rightarrow> error + string" where
  "repeatHash n = (if n < 0 then Inl (InvalidCount n) else Inr (hashes (nat n)))"

definition getDirParts :: "MarkDownConcatenator \<Rightarrow> File \<Rightarrow> string list" where
  "getDirParts this file =
     (if dir this = dirname (path file) then []
      else split SLASH (relative (cwd this) (dir this) (dirname (path file))))"

definition titleSuffix :: string where
  "titleSuffix = [NL, NL]"

text \<open>
  The body of \<^verbatim>\<open>dirParts.forEach\<close> in \<^verbatim>\<open>addTitle\<close>, over the parts that are left. The
  locals \<open>currentDir\<close>, \<open>level\<close> and \<open>titleMd\<close> and the titles recorded so far are passed
  along; \<open>level\<close> is incremented for every part, before the test on \<open>visitedDirs\<close>.
\<close>

fun dirTitles ::
  "MarkDownConcatenator \<Rightarrow> string list \<Rightarrow> string \<Rightarrow> int \<Rightarrow> string \<Rightarrow> Titles
     \<Rightarrow> error + (int \<times> string \<times> Titles)" where
  "dirTitles this [] currentDir lv titleMd st = Inr (lv, titleMd, st)"
| "dirTitles this (part # parts) currentDir lv titleMd st =
     (let currentDir' = currentDir @ (if currentDir \<noteq> [] then sep @ part else part);
          lv' = lv + 1
      in if currentDir' \<notin> visitedDirs st then
           (case repeatHash lv' of
              Inl e \<Rightarrow> Inl e
            | Inr dirTitlePrefix \<Rightarrow>
                let dirTitle = startCase part;
                    titleMd' = titleMd @ dirTitlePrefix @ '' '' @ dirTitle @ titleSuffix
                in dirTitles this parts currentDir' lv' titleMd'
                     (st\<lparr>visitedDirs := insert currentDir' (visitedDirs st),
                         fileTitleIndex := (fileTitleIndex st)
                           (join (dir this) currentDir' \<mapsto>
                              \<lparr>title = dirTitle, level = lv', md = titleMd'\<rparr>)\<rparr>))
         else dirTitles this parts currentDir' lv' titleMd st)"

text \<open>
  \<^verbatim>\<open>this.titleKey && file.attributes && file.attributes[this.titleKey]\<close>, the empty string
  standing for every falsy value.
\<close>

definition titleFromMeta :: "MarkDownConcatenator \<Rightarrow> File \<Rightarrow> string" where
  "titleFromMeta this file =
     (case titleKey this of
        None \<Rightarrow> []
      | Some k \<Rightarrow> if k = [] then [] else orElse (attributes file k) [])"

definition titleFromFileName :: "File \<Rightarrow> string" where
  "titleFromFileName file = startCase (basename (path file) (extname (path file)))"

definition anchor :: "string \<Rightarrow> string" where
  "anchor name = [NL] @ ''<a name=\"'' @ name @ ''\"></a>'' @ [NL, NL]"

definition addTitle :: "MarkDownConcatenator \<Rightarrow> Titles \<Rightarrow> File \<Rightarrow> error + Titles" where
  "addTitle this st file =
     (case (if dirNameAsTitle this
            then dirTitles this (getDirParts this file) [] (startTitleLevelAt this - 1) [] st
            else Inr (startTitleLevelAt this - 1, [], st)) of
        Inl e \<Rightarrow> Inl e
      | Inr (lv, titleMd, st1) \<Rightarrow>
          if titleFromMeta this file \<noteq> [] \<or> fileNameAsTitle this then
            (let fileTitle = (if titleFromMeta this file \<noteq> [] then titleFromMeta this file
                              else titleFromFileName file)
             in case repeatHash (lv + 1) of
                  Inl e \<Rightarrow> Inl e
                | Inr titlePrefix \<Rightarrow>
                    Inr (st1\<lparr>fileTitleIndex := (fileTitleIndex st1)
                           (path file \<mapsto>
                              \<lparr>title = fileTitle, level = lv + 1,
                               md = titleMd @ titlePrefix @ '' '' @ fileTitle @ titleSuffix\<rparr>)\<rparr>))
          else
            (let fileTitle = gitHubLink (relative (cwd this) (dir this) (path file))
             in Inr (st1\<lparr>fileTitleIndex := (fileTitleIndex st1)
                       (path file \<mapsto>
                          \<lparr>title = fileTitle, level = lv,
                           md = titleMd @ anchor fileTitle\<rparr>)\<rparr>)))"

definition getTitle :: "Titles \<Rightarrow> string \<Rightarrow> error + TitleEntry" where
  "getTitle st filePath =
     (case fileTitleIndex st filePath of
        None \<Rightarrow> Inl (CannotGetTitle filePath)
      | Some t \<Rightarrow> Inr t)"

section \<open>Links\<close>

text \<open>
  \<^verbatim>\<open>transformLinks\<close> is the package \<^verbatim>\<open>transform-markdown-links\<close>, whose code is not part
  of the repository. It is modelled on the inline links of a body: in each
  \<^verbatim>\<open>[text](target)\<close>, with no bracket in the text and no closing parenthesis in the
  target, the target is replaced by what the callback returns for it, and everything
  else is copied. The package takes a falsy result of the callback for no replacement:
  when the callback returns the empty string, the link keeps the target it has.
\<close>

definition newTarget :: "(string \<Rightarrow> string) \<Rightarrow> string \<Rightarrow> string" where
  "newTarget f l = (if f l = [] then l else f l)"

datatype linkScan =
    Plain
  | LinkText string
  | Closed string
  | Target string string

text \<open>
  The text of a link that did not complete is copied as it was read (the strings of
  the states are kept reversed).
\<close>

fun transformFrom :: "(string \<Rightarrow> string) \<Rightarrow> linkScan \<Rightarrow> string \<Rightarrow> string" where
  "transformFrom f Plain [] = []"
| "transformFrom f (LinkText t) [] = CHR ''['' # rev t"
| "transformFrom f (Closed t) [] = CHR ''['' # rev t @ '']''"
| "transformFrom f (Target t l) [] = CHR ''['' # rev t @ '']('' @ rev l"
| "transformFrom f Plain (c # cs) =
     (if c = CHR ''['' then transformFrom f (LinkText []) cs
      else c # transformFrom f Plain cs)"
| "transformFrom f (LinkText t) (c # cs) =
     (if c = CHR '']'' then transformFrom f (Closed t) cs
      else if c = CHR ''['' then CHR ''['' # rev t @ transformFrom f (LinkText []) cs
      else transformFrom f (LinkText (c # t)) cs)"
| "transformFrom f (Closed t) (c # cs) =
     (if c = CHR ''('' then transformFrom f (Target t []) cs
      else if c = CHR ''['' then CHR ''['' # rev t @ '']'' @ transformFrom f (LinkText []) cs
      else CHR ''['' # rev t @ '']'' @ c # transformFrom f Plain cs)"
| "transformFrom f (Target t l) (c # cs) =
     (if c = CHR '')'' then
        CHR ''['' # rev t @ '']('' @ newTarget f (rev l) @ '')'' @ transformFrom f Plain cs
      else transformFrom f (Target t (c # l)) cs)"

definition transformLinks :: "string \<Rightarrow> (string \<Rightarrow> string) \<Rightarrow> string" where
  "transformLinks input f = transformFrom f Plain input"

text \<open>
  The callback of \<^verbatim>\<open>modifyLinks\<close>. \<open>newLink\<close> is the \<^verbatim>\<open>try\<close> block, which throws when
  \<^verbatim>\<open>getTitle\<close> does; \<open>rewriteLink\<close> adds the test on \<^verbatim>\<open>http\<close> before it and the
  \<^verbatim>\<open>catch\<close>, which returns the empty string.
\<close>

definition newLink :: "Titles \<Rightarrow> File \<Rightarrow> string \<Rightarrow> error + string" where
  "newLink st file link =
     (let absoluteTargetPath = join (dirname (path file)) link;
          hash = dropWhile (\<lambda>c. c \<noteq> HASH) absoluteTargetPath;
          targetFile = takeWhile (\<lambda>c. c \<noteq> HASH) absoluteTargetPath
      in if hash \<noteq> [] then Inr hash
         else (case getTitle st targetFile of
                 Inl e \<Rightarrow> Inl e
               | Inr t \<Rightarrow> Inr (HASH # gitHubLink (title t))))"

definition rewriteLink :: "Titles \<Rightarrow> File \<Rightarrow> string \<Rightarrow> string" where
  "rewriteLink st file link =
     (if startsWith link ''http'' then link
      else (case newLink st file link of Inl e \<Rightarrow> [] | Inr l \<Rightarrow> l))"

definition modifyLinks :: "Titles \<Rightarrow> File \<Rightarrow> string" where
  "modifyLinks st file = transformLinks (body file) (rewriteLink st file)"

section \<open>Concatenation\<close>

text \<open>\<^verbatim>\<open>s.includes(t)\<close>\<close>

fun includesStr :: "string \<Rightarrow> string \<Rightarrow> bool" where
  "includesStr [] t = (t = [])"
| "includesStr (c # cs) t = (startsWith (c # cs) t \<or> includesStr cs t)"

definition TOC_TAG :: string where
  "TOC_TAG = ''<!-- START doctoc -->'' @ [NL] @ ''<!-- END doctoc -->''"

text \<open>
  \<^verbatim>\<open>addGlobalTitleAndToc\<close>. The transform of \<^verbatim>\<open>doctoc\<close> is not part of the repository
  and is a parameter: from the content and the greatest heading level, whether it
  transformed the content, and the new content.
\<close>

definition addGlobalTitleAndToc ::
  "(string \<Rightarrow> int \<Rightarrow> bool \<times> string) \<Rightarrow> MarkDownConcatenator \<Rightarrow> string \<Rightarrow> string" where
  "addGlobalTitleAndToc transform this content =
     (let t = orElse (mainTitle this) []
      in if \<not> toc this then
           (if t \<noteq> [] then ''# '' @ t @ [NL] @ content else content)
         else
           (let r1 = (if \<not> includesStr content TOC_TAG then TOC_TAG @ [NL, NL] @ content
                      else content);
                r2 = (if t \<noteq> [] then ''# '' @ t @ [NL, NL] @ r1 else r1);
                docTocResult = transform r2 (tocLevel this)
            in if fst docTocResult then snd docTocResult else r2))"

text \<open>
  The first loop of \<^verbatim>\<open>concatFiles\<close>: the title of each file is added, read back and put
  before the body, whose headings are moved down by the level of the title.
\<close>

fun titlePass ::
  "MarkDownConcatenator \<Rightarrow> Titles \<Rightarrow> File list \<Rightarrow> error + (Titles \<times> File list)" where
  "titlePass this st [] = Inr (st, [])"
| "titlePass this st (file # files) =
     (case addTitle this st file of
        Inl e \<Rightarrow> Inl e
      | Inr st1 \<Rightarrow>
          (case getTitle st1 (path file) of
             Inl e \<Rightarrow> Inl e
           | Inr t \<Rightarrow>
               (case titlePass this st1 files of
                  Inl e \<Rightarrow> Inl e
                | Inr (st2, files') \<Rightarrow>
                    Inr (st2,
                         file\<lparr>body := md t @
                           decreaseTitleLevelsBy (decreaseTitleLevels this) (body file) (level t)\<rparr>
                         # files'))))"

text \<open>The second loop, over the files and the titles the first loop left.\<close>

definition linkPass :: "Titles \<Rightarrow> File list \<Rightarrow> File list" where
  "linkPass st files = map (\<lambda>file. file\<lparr>body := modifyLinks st file\<rparr>) files"

definition concatFiles ::
  "(string \<Rightarrow> int \<Rightarrow> bool \<times> string) \<Rightarrow> MarkDownConcatenator \<Rightarrow> File list \<Rightarrow> error + string" where
  "concatFiles transform this files =
     (case titlePass this noTitles files of
        Inl e \<Rightarrow> Inl e
      | Inr (st, files1) \<Rightarrow>
          Inr (addGlobalTitleAndToc transform this
                 (joinWith (joinString this) (map body (linkPass st files1)))))"

section \<open>Inputs and notions of the statements\<close>

text \<open>A fenced code block whose only line starts with a hash.\<close>

definition fencedBody :: string where
  "fencedBody =
     replicate 3 (CHR 0x60) @ [NL] @ ''# not a heading'' @ [NL] @ replicate 3 (CHR 0x60) @ [NL]"

text \<open>The characters a slug is made of.\<close>

definition slugChar :: "char \<Rightarrow> bool" where
  "slugChar c = (isLower c \<or> isDigit c \<or> c = CHR ''_'' \<or> c = CHR ''-'')"

text \<open>
  The directories \<^verbatim>\<open>addTitle\<close> goes through for a list of parts: the values of
  \<open>currentDir\<close>, in order.
\<close>

fun cumulativeDirs :: "string \<Rightarrow> string list \<Rightarrow> string list" where
  "cumulativeDirs currentDir [] = []"
| "cumulativeDirs currentDir (part # parts) =
     (currentDir @ (if currentDir \<noteq> [] then sep @ part else part))
     # cumulativeDirs (currentDir @ (if currentDir \<noteq> [] then sep @ part else part)) parts"

text \<open>The keys of the title index that belong to the directories above a file.\<close>

definition dirKeys :: "MarkDownConcatenator \<Rightarrow> File \<Rightarrow> string set" where
  "dirKeys this file =
     (if dirNameAsTitle this
      then join (dir this) ` set (cumulativeDirs [] (getDirParts this file))
      else {})"

text \<open>Those of them whose directory has not been visited yet.\<close>

definition newDirKeys :: "MarkDownConcatenator \<Rightarrow> Titles \<Rightarrow> File \<Rightarrow> string set" where
  "newDirKeys this st file =
     (if dirNameAsTitle this
      then join (dir this) `
             set (filter (\<lambda>d. d \<notin> visitedDirs st) (cumulativeDirs [] (getDirParts this file)))
      else {})"

text \<open>Whether a file gets a heading of its own, and the title \<^verbatim>\<open>addTitle\<close> records for it.\<close>

definition titled :: "MarkDownConcatenator \<Rightarrow> File \<Rightarrow> bool" where
  "titled this file = (titleFromMeta this file \<noteq> [] \<or> fileNameAsTitle this)"

definition fileTitleOf :: "MarkDownConcatenator \<Rightarrow> File \<Rightarrow> string" where
  "fileTitleOf this file =
     (if titleFromMeta this file \<noteq> [] then titleFromMeta this file
      else if fileNameAsTitle this then titleFromFileName file
      else gitHubLink (relative (cwd this) (dir this) (path file)))"

text \<open>
  The level of a file's own title as the specification describes it, written from its
  words and not from the code: the counter starts at \<^verbatim>\<open>startTitleLevelAt - 1\<close>, goes up
  by one for every directory above the file that has not been visited, and once more
  for the title of the file.
\<close>

definition claimedLevel :: "MarkDownConcatenator \<Rightarrow> Titles \<Rightarrow> File \<Rightarrow> int" where
  "claimedLevel this st file =
     startTitleLevelAt this - 1
     + (if dirNameAsTitle this
        then int (length (filter (\<lambda>d. d \<notin> visitedDirs st)
                            (cumulativeDirs [] (getDirParts this file))))
        else 0)
     + (if titled this file then 1 else 0)"

text \<open>
  A run over the directory \<^verbatim>\<open>/root\<close> with \<^verbatim>\<open>dirNameAsTitle\<close> and \<^verbatim>\<open>fileNameAsTitle\<close>
  and every other option left out, and two files of its directory \<^verbatim>\<open>sub\<close>.
\<close>

definition titledOptions :: ConcatOptions where
  "titledOptions = noOptions\<lparr>opt_fileNameAsTitle := Some True, opt_dirNameAsTitle := Some True\<rparr>"

definition titledRun :: MarkDownConcatenator where
  "titledRun = constructor ''/'' ''/root'' titledOptions"

definition subA :: File where
  "subA = \<lparr>path = ''/root/sub/a.md'', body = ''first'', attributes = Map.empty\<rparr>"

definition subB :: File where
  "subB = \<lparr>path = ''/root/sub/b.md'', body = ''second'', attributes = Map.empty\<rparr>"

text \<open>The titles after \<open>subA\<close>, after \<open>subA\<close> and \<open>subB\<close>, and after \<open>subA\<close> twice.\<close>

definition entrySub :: TitleEntry where
  "entrySub = \<lparr>title = ''Sub'', level = 1, md = ''# Sub'' @ [NL, NL]\<rparr>"

definition entrySubA :: TitleEntry where
  "entrySubA = \<lparr>title = ''A'', level = 2, md = ''# Sub'' @ [NL, NL] @ ''## A'' @ [NL, NL]\<rparr>"

definition entrySubB :: TitleEntry where
  "entrySubB = \<lparr>title = ''B'', level = 2, md = ''## B'' @ [NL, NL]\<rparr>"

definition entrySubAAgain :: TitleEntry where
  "entrySubAAgain = \<lparr>title = ''A'', level = 2, md = ''## A'' @ [NL, NL]\<rparr>"

definition afterSubA :: Titles where
  "afterSubA =
     \<lparr>visitedDirs = {''sub''},
      fileTitleIndex = [''/root/sub'' \<mapsto> entrySub, ''/root/sub/a.md'' \<mapsto> entrySubA]\<rparr>"

definition afterSubAB :: Titles where
  "afterSubAB =
     \<lparr>visitedDirs = {''sub''},
      fileTitleIndex = [''/root/sub'' \<mapsto> entrySub, ''/root/sub/a.md'' \<mapsto> entrySubA,
                        ''/root/sub/b.md'' \<mapsto> entrySubB]\<rparr>"

definition afterSubAA :: Titles where
  "afterSubAA =
     \<lparr>visitedDirs = {''sub''},
      fileTitleIndex = [''/root/sub'' \<mapsto> entrySub, ''/root/sub/a.md'' \<mapsto> entrySubAAgain]\<rparr>"

text \<open>
  The two files of the round trip, \<^verbatim>\<open>a.md\<close> and \<^verbatim>\<open>sub/b.md\<close> under \<^verbatim>\<open>/root\<close>, and the
  output expected for them.
\<close>

definition docA :: File where
  "docA = \<lparr>path = ''/root/a.md'', body = ''# A'' @ [NL], attributes = Map.empty\<rparr>"

definition docB :: File where
  "docB = \<lparr>path = ''/root/sub/b.md'', body = ''[link](../a.md)'', attributes = Map.empty\<rparr>"

definition roundTripOutput :: string where
  "roundTripOutput =
     ''# A'' @ [NL, NL] @ ''# A'' @ [NL] @ [NL]
     @ ''# Sub'' @ [NL, NL] @ ''## B'' @ [NL, NL] @ ''[link](#a)''"

text \<open>
  A run over \<^verbatim>\<open>/root\<close> with no option at all, and two files of it: the first links to
  the second and to a file \<^verbatim>\<open>c.md\<close> that is not processed, the second links to the
  first. Then the titles and the bodies the first loop of \<^verbatim>\<open>concatFiles\<close> leaves, and
  the output of the run.
\<close>

definition plainRun :: MarkDownConcatenator where
  "plainRun = constructor ''/'' ''/root'' noOptions"

definition plainA :: File where
  "plainA = \<lparr>path = ''/root/a.md'', body = ''[b](b.md) [c](c.md)'', attributes = Map.empty\<rparr>"

definition plainB :: File where
  "plainB = \<lparr>path = ''/root/b.md'', body = ''[a](a.md)'', attributes = Map.empty\<rparr>"

definition anchorAmd :: string where
  "anchorAmd = [NL] @ ''<a name=\"amd\"></a>'' @ [NL, NL]"

definition anchorBmd :: string where
  "anchorBmd = [NL] @ ''<a name=\"bmd\"></a>'' @ [NL, NL]"

definition plainTitles :: Titles where
  "plainTitles =
     \<lparr>visitedDirs = {},
      fileTitleIndex =
        [''/root/a.md'' \<mapsto> \<lparr>title = ''amd'', level = 0, md = anchorAmd\<rparr>,
         ''/root/b.md'' \<mapsto> \<lparr>title = ''bmd'', level = 0, md = anchorBmd\<rparr>]\<rparr>"

definition plainFiles :: "File list" where
  "plainFiles =
     [plainA\<lparr>body := anchorAmd @ ''[b](b.md) [c](c.md)''\<rparr>,
      plainB\<lparr>body := anchorBmd @ ''[a](a.md)''\<rparr>]"

definition plainOutput :: string where
  "plainOutput =
     anchorAmd @ ''[b](#bmd) [c](c.md)'' @ [NL] @ anchorBmd @ ''[a](#amd)''"

text \<open>
  A file given under a spelling of its path that is not the normal one, which links to
  itself; the titles and the bodies the first loop leaves for it, and the output of the
  run.
\<close>

definition dottedA :: File where
  "dottedA = \<lparr>path = ''/root/./a.md'', body = ''[self](a.md)'', attributes = Map.empty\<rparr>"




text \<open>
  A file whose name starts with \<^verbatim>\<open>http\<close>, a file that links to it, and the output of the
  run over both.
\<close>

definition httpdDoc :: File where
  "httpdDoc = \<lparr>path = ''/root/httpd.md'', body = ''daemon'', attributes = Map.empty\<rparr>"

definition httpdRef :: File where
  "httpdRef = \<lparr>path = ''/root/index.md'', body = ''[d](httpd.md)'', attributes = Map.empty\<rparr>"

definition httpdOutput :: string where
  "httpdOutput =
     [NL] @ ''<a name=\"httpdmd\"></a>'' @ [NL, NL] @ ''daemon'' @ [NL]
     @ [NL] @ ''<a name=\"indexmd\"></a>'' @ [NL, NL] @ ''[d](httpd.md)''"

text \<open>The titles and the bodies the first loop leaves for \<open>docA\<close> and \<open>docB\<close>.\<close>

definition docTitles :: Titles where
  "docTitles =
     \<lparr>visitedDirs = {''sub''},
      fileTitleIndex =
        [''/root/a.md'' \<mapsto> \<lparr>title = ''A'', level = 1, md = ''# A'' @ [NL, NL]\<rparr>,
         ''/root/sub'' \<mapsto> entrySub,
         ''/root/sub/b.md'' \<mapsto>
           \<lparr>title = ''B'', level = 2, md = ''# Sub'' @ [NL, NL] @ ''## B'' @ [NL, NL]\<rparr>]\<rparr>"

definition docFiles :: "File list" where
  "docFiles =
     [docA\<lparr>body := ''# A'' @ [NL, NL] @ ''# A'' @ [NL]\<rparr>,
      docB\<lparr>body := ''# Sub'' @ [NL, NL] @ ''## B'' @ [NL, NL] @ ''[link](../a.md)''\<rparr>]"

section \<open>Properties of the heading level rewriter\<close>

lemma appendHashes_run: "appendHashes b InRun (hashes a @ s) = hashes a @ appendHashes b InRun s"
  by (induction a) (simp_all add: hashes_def)

lemma hashes_add: "hashes a @ hashes b = hashes (a + b)"
  by (simp add: hashes_def replicate_add)

text \<open>Two scans from the same state add up, whatever the state.\<close>

lemma appendHashes_add: "appendHashes b st (appendHashes a st s) = appendHashes (a + b) st s"
proof (induction s arbitrary: st)
  case Nil
  show ?case
  proof (cases st)
    case InRun
    have "appendHashes b InRun (hashes a @ []) = hashes a @ appendHashes b InRun []"
      by (rule appendHashes_run)
    then show ?thesis using InRun by (simp add: hashes_add)
  qed simp_all
next
  case (Cons c cs)
  show ?case
  proof (cases st)
    case InRun
    show ?thesis
    proof (cases "c = HASH")
      case True
      then show ?thesis using InRun Cons by simp
    next
      case False
      have "appendHashes b InRun (hashes a @ c # appendHashes a (after c) cs)
            = hashes a @ appendHashes b InRun (c # appendHashes a (after c) cs)"
        by (rule appendHashes_run)
      then show ?thesis using InRun False Cons by (simp add: hashes_add)
    qed
  qed (simp_all add: Cons)
qed

text \<open>
  C6: the heading level rewriter returns the body unchanged whenever level-decreasing is
  disabled or the shift is zero or negative, for every body.
\<close>

theorem decreaseTitleLevelsBy_unchanged:
  "\<not> decrease \<or> n \<le> 0 \<Longrightarrow> decreaseTitleLevelsBy decrease b n = b"
  by (simp add: decreaseTitleLevelsBy_def)

text \<open>
  At shift 0 with decreasing enabled, and at shift 3 with decreasing disabled, a body of
  two headings comes back as it was; at shift 3 with decreasing enabled it does not.
\<close>

theorem decreaseTitleLevelsBy_unchanged_witness:
  "decreaseTitleLevelsBy True (''# T'' @ [NL] @ ''## U'') 0 = ''# T'' @ [NL] @ ''## U''
   \<and> decreaseTitleLevelsBy False (''# T'' @ [NL] @ ''## U'') 3 = ''# T'' @ [NL] @ ''## U''
   \<and> decreaseTitleLevelsBy True (''# T'' @ [NL] @ ''## U'') 3 \<noteq> ''# T'' @ [NL] @ ''## U''"
proof -
  have "decreaseTitleLevelsBy True (''# T'' @ [NL] @ ''## U'') 3 \<noteq> ''# T'' @ [NL] @ ''## U''"
    by code_simp
  then show ?thesis
    using decreaseTitleLevelsBy_unchanged [of True 0 "''# T'' @ [NL] @ ''## U''"]
      decreaseTitleLevelsBy_unchanged [of False 3 "''# T'' @ [NL] @ ''## U''"]
    by simp
qed

text \<open>
  C7: with level-decreasing enabled the rewriter is additive: rewriting by \<open>a\<close> and then
  by \<open>b\<close> is rewriting by \<open>a + b\<close>, for every body and all non-negative \<open>a\<close> and \<open>b\<close>.
\<close>

theorem decreaseTitleLevelsBy_additive:
  assumes "0 \<le> a" and "0 \<le> b"
  shows "decreaseTitleLevelsBy True (decreaseTitleLevelsBy True s a) b
         = decreaseTitleLevelsBy True s (a + b)"
proof (cases "a = 0 \<or> b = 0")
  case True
  then show ?thesis by (auto simp: decreaseTitleLevelsBy_def)
next
  case False
  then have pos: "0 < a" "0 < b" using assms by auto
  then have "nat a + nat b = nat (a + b)" by simp
  then show ?thesis using pos
    by (simp add: decreaseTitleLevelsBy_def appendHashes_add)
qed

text \<open>Shifts 1 and 2 on a body with two headings and a hash inside a line.\<close>

theorem decreaseTitleLevelsBy_additive_witness:
  "decreaseTitleLevelsBy True
     (decreaseTitleLevelsBy True (''# T'' @ [NL] @ ''x # y'' @ [NL] @ ''## U'') 1) 2
   = ''#### T'' @ [NL] @ ''x # y'' @ [NL] @ ''##### U''"
proof -
  have "decreaseTitleLevelsBy True (''# T'' @ [NL] @ ''x # y'' @ [NL] @ ''## U'') (1 + 2)
        = ''#### T'' @ [NL] @ ''x # y'' @ [NL] @ ''##### U''"
    by code_simp
  then show ?thesis
    using decreaseTitleLevelsBy_additive [of 1 2 "''# T'' @ [NL] @ ''x # y'' @ [NL] @ ''## U''"]
    by simp
qed

lemma appendHashes_fencedBody:
  "appendHashes n LineStart fencedBody
   = replicate 3 (CHR 0x60) @ [NL] @ [HASH] @ hashes n @ '' not a heading'' @ [NL]
     @ replicate 3 (CHR 0x60) @ [NL]"
  by (simp add: fencedBody_def after_def isLineTerminator_def code_def numeral_3_eq_3)

text \<open>
  C10: the rewriter takes every line that begins with a hash for a heading, wherever it
  stands: with level-decreasing enabled and a shift of at least 1, the line inside the
  fenced code block \<open>fencedBody\<close> receives the appended hashes too.
\<close>

theorem decreaseTitleLevelsBy_rewrites_code_fence:
  "1 \<le> n \<Longrightarrow>
   decreaseTitleLevelsBy True fencedBody n
   = replicate 3 (CHR 0x60) @ [NL] @ [HASH] @ hashes (nat n) @ '' not a heading'' @ [NL]
     @ replicate 3 (CHR 0x60) @ [NL]"
  by (simp add: decreaseTitleLevelsBy_def appendHashes_fencedBody)

text \<open>At shift 2 the line of the code block has three hashes.\<close>

theorem decreaseTitleLevelsBy_rewrites_code_fence_witness:
  "decreaseTitleLevelsBy True fencedBody 2
   = replicate 3 (CHR 0x60) @ [NL] @ ''### not a heading'' @ [NL] @ replicate 3 (CHR 0x60) @ [NL]"
proof -
  have "hashes (nat 2) = ''##''" by code_simp
  then show ?thesis using decreaseTitleLevelsBy_rewrites_code_fence [of 2] by simp
qed

section \<open>Properties of the title deriver\<close>


lemma repeatHash_ok: "0 \<le> n \<Longrightarrow> repeatHash n = Inr (hashes (nat n))"
  by (simp add: repeatHash_def)

lemma dirTitles_level:
  "dirTitles this parts cur lv tm st = Inr (lv', tm', st') \<Longrightarrow> lv' = lv + int (length parts)"
proof (induction parts arbitrary: cur lv tm st)
  case Nil
  then show ?case by simp
next
  case (Cons part parts)
  then show ?case
    by (fastforce simp: Let_def split: if_splits sum.splits)
qed


lemma dirTitles_ok:
  "-1 \<le> lv \<Longrightarrow> \<exists>r. dirTitles this parts cur lv tm st = Inr r"
proof (induction parts arbitrary: cur lv tm st)
  case Nil
  then show ?case by simp
next
  case (Cons part parts)
  have "0 \<le> lv + 1" "-1 \<le> lv + 1" using Cons.prems by simp_all
  then show ?case using Cons.IH [of "lv + 1"]
    by (simp add: Let_def repeatHash_ok)
qed

lemma dirTitles_keys:
  "dirTitles this parts cur lv tm st = Inr (lv', tm', st') \<Longrightarrow>
   k \<notin> join (dir this) ` set (filter (\<lambda>d. d \<notin> visitedDirs st) (cumulativeDirs cur parts)) \<Longrightarrow>
   fileTitleIndex st' k = fileTitleIndex st k"
proof (induction parts arbitrary: cur lv tm st)
  case Nil
  then show ?case by simp
next
  case (Cons part parts)
  define c where "c = cur @ (if cur \<noteq> [] then sep @ part else part)"
  show ?case
  proof (cases "c \<in> visitedDirs st")
    case True
    then have run: "dirTitles this parts c (lv + 1) tm st = Inr (lv', tm', st')"
      using Cons.prems(1) by (simp add: Let_def c_def)
    have "k \<notin> join (dir this) ` set (filter (\<lambda>d. d \<notin> visitedDirs st) (cumulativeDirs c parts))"
      using Cons.prems(2) True by (simp add: c_def)
    with run show ?thesis by (rule Cons.IH)
  next
    case False
    define st1 where "st1 = st\<lparr>visitedDirs := insert c (visitedDirs st),
          fileTitleIndex := (fileTitleIndex st)(join (dir this) c \<mapsto>
            \<lparr>title = startCase part, level = lv + 1,
             md = tm @ hashes (nat (lv + 1)) @ '' '' @ startCase part @ titleSuffix\<rparr>)\<rparr>"
    from False Cons.prems(1) obtain p where p: "repeatHash (lv + 1) = Inr p"
      by (auto simp: Let_def c_def split: sum.splits)
    then have p_eq: "p = hashes (nat (lv + 1))"
      by (auto simp: repeatHash_def split: if_splits)
    have run: "dirTitles this parts c (lv + 1) (tm @ p @ '' '' @ startCase part @ titleSuffix) st1
               = Inr (lv', tm', st')"
      using Cons.prems(1) False p by (simp add: Let_def c_def st1_def p_eq)
    have kc: "k \<noteq> join (dir this) c" using Cons.prems(2) False by (auto simp: c_def)
    have "set (filter (\<lambda>d. d \<notin> visitedDirs st1) (cumulativeDirs c parts))
          \<subseteq> set (filter (\<lambda>d. d \<notin> visitedDirs st) (cumulativeDirs c parts))"
      by (auto simp: st1_def)
    then have "k \<notin> join (dir this) ` set (filter (\<lambda>d. d \<notin> visitedDirs st1) (cumulativeDirs c parts))"
      using Cons.prems(2) False by (auto simp: c_def)
    with run have "fileTitleIndex st' k = fileTitleIndex st1 k" by (rule Cons.IH)
    then show ?thesis using kc by (simp add: st1_def)
  qed
qed

text \<open>What \<^verbatim>\<open>addTitle\<close> leaves at the key of the file, and at every other key.\<close>

lemma addTitle_entry:
  assumes "addTitle this st f = Inr st'"
  shows "\<exists>tm. fileTitleIndex st' (path f) =
          Some \<lparr>title = fileTitleOf this f,
                level = startTitleLevelAt this - 1
                  + (if dirNameAsTitle this then int (length (getDirParts this f)) else 0)
                  + (if titled this f then 1 else 0),
                md = tm @ (if titled this f
                           then hashes (nat (startTitleLevelAt this - 1
                                  + (if dirNameAsTitle this then int (length (getDirParts this f)) else 0)
                                  + 1)) @ '' '' @ fileTitleOf this f @ titleSuffix
                           else anchor (fileTitleOf this f))\<rparr>"
proof -
  obtain lv tm st1 where d: "(if dirNameAsTitle this
            then dirTitles this (getDirParts this f) [] (startTitleLevelAt this - 1) [] st
            else Inr (startTitleLevelAt this - 1, [], st)) = Inr (lv, tm, st1)"
    using assms unfolding addTitle_def by (auto split: sum.splits)
  have lv: "lv = startTitleLevelAt this - 1
                  + (if dirNameAsTitle this then int (length (getDirParts this f)) else 0)"
    using d by (auto split: if_splits dest: dirTitles_level)
  show ?thesis
  proof (cases "titled this f")
    case True
    then obtain p where p: "repeatHash (lv + 1) = Inr p"
      using assms d unfolding addTitle_def by (auto simp: titled_def Let_def split: sum.splits)
    then have "p = hashes (nat (lv + 1))" by (auto simp: repeatHash_def split: if_splits)
    then show ?thesis using assms d p True unfolding addTitle_def lv [symmetric]
      by (auto simp: titled_def fileTitleOf_def Let_def)
  next
    case False
    then show ?thesis using assms d unfolding addTitle_def lv [symmetric]
      by (auto simp: titled_def fileTitleOf_def Let_def)
  qed
qed

lemma addTitle_keys:
  assumes "addTitle this st f = Inr st'" "k \<noteq> path f" "k \<notin> newDirKeys this st f"
  shows "fileTitleIndex st' k = fileTitleIndex st k"
proof -
  obtain lv tm st1 where d: "(if dirNameAsTitle this
            then dirTitles this (getDirParts this f) [] (startTitleLevelAt this - 1) [] st
            else Inr (startTitleLevelAt this - 1, [], st)) = Inr (lv, tm, st1)"
    using assms(1) unfolding addTitle_def by (auto split: sum.splits)
  have "fileTitleIndex st1 k = fileTitleIndex st k"
  proof (cases "dirNameAsTitle this")
    case True
    then show ?thesis using d assms(3) dirTitles_keys [of this _ "[]" _ "[]" st lv tm st1 k]
      by (simp add: newDirKeys_def)
  next
    case False
    then show ?thesis using d by simp
  qed
  moreover have "fileTitleIndex st' k = fileTitleIndex st1 k"
    using assms(1,2) d unfolding addTitle_def
    by (auto simp: Let_def split: sum.splits if_splits)
  ultimately show ?thesis by simp
qed


lemma addTitle_ok:
  assumes "0 \<le> startTitleLevelAt this"
  shows "\<exists>st'. addTitle this st f = Inr st'"
proof -
  have "\<exists>r. (if dirNameAsTitle this
            then dirTitles this (getDirParts this f) [] (startTitleLevelAt this - 1) [] st
            else Inr (startTitleLevelAt this - 1, [], st)) = Inr r"
    using assms dirTitles_ok [of "startTitleLevelAt this - 1"] by simp
  then obtain lv tm st1 where d: "(if dirNameAsTitle this
            then dirTitles this (getDirParts this f) [] (startTitleLevelAt this - 1) [] st
            else Inr (startTitleLevelAt this - 1, [], st)) = Inr (lv, tm, st1)"
    by (metis prod_cases3)
  have "lv = startTitleLevelAt this - 1
                  + (if dirNameAsTitle this then int (length (getDirParts this f)) else 0)"
    using d by (auto split: if_splits dest: dirTitles_level)
  then have "0 \<le> lv + 1" using assms by (simp split: if_splits)
  then have "repeatHash (lv + 1) = Inr (hashes (nat (lv + 1)))" by (rule repeatHash_ok)
  then show ?thesis using d unfolding addTitle_def by (simp add: Let_def)
qed

lemma getTitle_after_addTitle:
  "addTitle this st f = Inr st' \<Longrightarrow> \<exists>t. getTitle st' (path f) = Inr t"
  using addTitle_entry [of this st f st'] by (auto simp: getTitle_def)


lemma titlePass_ok:
  "0 \<le> startTitleLevelAt this \<Longrightarrow> \<exists>r. titlePass this st files = Inr r"
proof (induction files arbitrary: st)
  case Nil
  then show ?case by simp
next
  case (Cons f files)
  obtain st1 where a: "addTitle this st f = Inr st1" using addTitle_ok [OF Cons.prems] by blast
  obtain t where t: "getTitle st1 (path f) = Inr t" using getTitle_after_addTitle [OF a] by blast
  obtain r where "titlePass this st1 files = Inr r" using Cons.IH [OF Cons.prems] by blast
  then show ?case using a t by (cases r) simp
qed

lemma newDirKeys_subset: "newDirKeys this st f \<subseteq> dirKeys this f"
  by (auto simp: newDirKeys_def dirKeys_def)

lemma titlePass_keeps:
  "titlePass this st files = Inr (st', files') \<Longrightarrow>
   \<forall>g\<in>set files. path g \<noteq> k \<and> k \<notin> dirKeys this g \<Longrightarrow>
   fileTitleIndex st' k = fileTitleIndex st k"
proof (induction files arbitrary: st files')
  case Nil
  then show ?case by simp
next
  case (Cons f files)
  from Cons.prems(1) obtain st1 t r where a: "addTitle this st f = Inr st1"
      and "getTitle st1 (path f) = Inr t" and r: "titlePass this st1 files = Inr r"
    by (auto split: sum.splits)
  obtain files2 where r2: "titlePass this st1 files = Inr (st', files2)"
    using Cons.prems(1) a \<open>getTitle st1 (path f) = Inr t\<close> r by (cases r) auto
  have "fileTitleIndex st' k = fileTitleIndex st1 k"
    using r2 Cons.prems(2) by (intro Cons.IH) auto
  moreover have "fileTitleIndex st1 k = fileTitleIndex st k"
    using a Cons.prems(2) newDirKeys_subset [of this st f] by (intro addTitle_keys) auto
  ultimately show ?case by simp
qed

lemma titlePass_split:
  "titlePass this st (before @ f # later) = Inr (st', files') \<Longrightarrow>
   \<exists>st1 st2 t fs1 fs2. titlePass this st before = Inr (st1, fs1) \<and> addTitle this st1 f = Inr st2
     \<and> getTitle st2 (path f) = Inr t \<and> titlePass this st2 later = Inr (st', fs2)
     \<and> length fs1 = length before
     \<and> files' = fs1 @ f\<lparr>body := md t @ decreaseTitleLevelsBy (decreaseTitleLevels this) (body f) (level t)\<rparr> # fs2"
proof (induction before arbitrary: st files')
  case Nil
  then show ?case by (auto split: sum.splits)
next
  case (Cons g before)
  from Cons.prems obtain sg tg r where a: "addTitle this st g = Inr sg"
      and t: "getTitle sg (path g) = Inr tg" and r: "titlePass this sg (before @ f # later) = Inr r"
    by (auto split: sum.splits)
  obtain fsr where r2: "titlePass this sg (before @ f # later) = Inr (st', fsr)"
     and f': "files' = g\<lparr>body := md tg @ decreaseTitleLevelsBy (decreaseTitleLevels this) (body g) (level tg)\<rparr> # fsr"
    using Cons.prems a t r by (cases r) auto
  from Cons.IH [OF r2] obtain st1 st2 t' fs1 fs2 where
    "titlePass this sg before = Inr (st1, fs1)" "addTitle this st1 f = Inr st2"
    "getTitle st2 (path f) = Inr t'" "titlePass this st2 later = Inr (st', fs2)"
    "length fs1 = length before"
    "fsr = fs1 @ f\<lparr>body := md t' @ decreaseTitleLevelsBy (decreaseTitleLevels this) (body f) (level t')\<rparr> # fs2"
    by blast
  then show ?case using a t f' by simp
qed

subsection \<open>The run over the directory sub\<close>

lemma titledRun_fields:
  "dirNameAsTitle titledRun" "fileNameAsTitle titledRun" "startTitleLevelAt titledRun = 1"
  "dir titledRun = ''/root''" "titleKey titledRun = None" "cwd titledRun = ''/''"
  by (simp_all add: titledRun_def constructor_def titledOptions_def noOptions_def orElse_def)

lemma sub_parts: "getDirParts titledRun subA = [''sub'']" "getDirParts titledRun subB = [''sub'']"
  by code_simp+

lemma sub_names: "startCase ''sub'' = ''Sub''" "titleFromFileName subA = ''A''"
  "titleFromFileName subB = ''B''" "join ''/root'' ''sub'' = ''/root/sub''"
  by code_simp+

lemma repeatHash_simps: "repeatHash 1 = Inr ''#''" "repeatHash 2 = Inr ''##''"
  by code_simp+

lemma sub_paths: "path subA = ''/root/sub/a.md''" "path subB = ''/root/sub/b.md''"
  by (simp_all add: subA_def subB_def)

lemma addTitle_subA: "addTitle titledRun noTitles subA = Inr afterSubA"
  by (simp add: Let_def addTitle_def titledRun_fields sub_parts sub_names repeatHash_simps
      titleFromMeta_def noTitles_def afterSubA_def entrySub_def entrySubA_def sub_paths sep_def
      titleSuffix_def)

lemma addTitle_subB: "addTitle titledRun afterSubA subB = Inr afterSubAB"
  by (simp add: Let_def addTitle_def titledRun_fields sub_parts sub_names repeatHash_simps
      titleFromMeta_def afterSubAB_def afterSubA_def entrySubB_def sub_paths sep_def
      titleSuffix_def)

lemma addTitle_subA_again: "addTitle titledRun afterSubA subA = Inr afterSubAA"
  by (simp add: Let_def addTitle_def titledRun_fields sub_parts sub_names repeatHash_simps
      titleFromMeta_def afterSubAA_def afterSubA_def entrySubAAgain_def sub_paths sep_def
      titleSuffix_def)

lemma claimedLevel_subB: "claimedLevel titledRun afterSubA subB = 1"
  by (simp add: Let_def claimedLevel_def titledRun_fields sub_parts afterSubA_def titled_def sep_def)

lemma titled_sub: "titled titledRun subA" "titled titledRun subB"
  by (simp_all add: titled_def titledRun_fields)

subsection \<open>The level of a file's title\<close>

text \<open>
  C1, as the claim states it, fails. \<open>subA\<close> and \<open>subB\<close> lie in the same directory. When
  \<open>subB\<close> is processed after \<open>subA\<close>, its directory has been visited, so that by the claim
  no directory consumes a level and the title of \<open>subB\<close> has level 1
  (\<open>claimedLevel\<close>); \<^verbatim>\<open>addTitle\<close> gives it level 2.
\<close>

theorem addTitle_level_counterexample:
  "addTitle titledRun noTitles subA = Inr afterSubA
   \<and> ''sub'' \<in> visitedDirs afterSubA
   \<and> addTitle titledRun afterSubA subB = Inr afterSubAB
   \<and> map_option level (fileTitleIndex afterSubAB (path subB)) = Some 2
   \<and> claimedLevel titledRun afterSubA subB = 1"
  by (simp add: addTitle_subA addTitle_subB claimedLevel_subB)
    (simp add: afterSubA_def afterSubAB_def sub_paths entrySubB_def)

text \<open>
  C1, amended: the running level is incremented for every directory component, visited
  before or not; a component that has been visited only gets no heading and no entry.
  The level of a file's own title is therefore \<^verbatim>\<open>startTitleLevelAt - 1\<close>, plus the number
  of directory components of the file when directory titles are enabled, plus one when
  the file has a title, whatever has been visited.
\<close>

theorem addTitle_level_counts_every_directory:
  "(currentDir @ (if currentDir \<noteq> [] then sep @ part else part) \<in> visitedDirs st
      \<longrightarrow> dirTitles this [part] currentDir lv titleMd st = Inr (lv + 1, titleMd, st))
   \<and> (addTitle this st f = Inr st'
      \<longrightarrow> map_option level (fileTitleIndex st' (path f))
          = Some (startTitleLevelAt this - 1
                  + (if dirNameAsTitle this then int (length (getDirParts this f)) else 0)
                  + (if titled this f then 1 else 0)))"
proof (intro conjI impI)
  assume "currentDir @ (if currentDir \<noteq> [] then sep @ part else part) \<in> visitedDirs st"
  then show "dirTitles this [part] currentDir lv titleMd st = Inr (lv + 1, titleMd, st)"
    by (simp add: Let_def)
next
  assume "addTitle this st f = Inr st'"
  from addTitle_entry [OF this]
  show "map_option level (fileTitleIndex st' (path f))
        = Some (startTitleLevelAt this - 1
                + (if dirNameAsTitle this then int (length (getDirParts this f)) else 0)
                + (if titled this f then 1 else 0))"
    by auto
qed

text \<open>
  For \<open>subB\<close> after \<open>subA\<close>: the visited directory \<^verbatim>\<open>sub\<close> raises the level from 0 to 1
  and adds no heading, and the title of \<open>subB\<close> has level 2.
\<close>

theorem addTitle_level_counts_every_directory_witness:
  "dirTitles titledRun [''sub''] [] 0 [] afterSubA = Inr (1, [], afterSubA)
   \<and> map_option level (fileTitleIndex afterSubAB (path subB)) = Some 2"
proof -
  have v: "[] @ (if [] \<noteq> [] then sep @ ''sub'' else ''sub'') \<in> visitedDirs afterSubA"
    by (simp add: afterSubA_def)
  have n: "startTitleLevelAt titledRun - 1
           + (if dirNameAsTitle titledRun then int (length (getDirParts titledRun subB)) else 0)
           + (if titled titledRun subB then 1 else 0) = 2"
    by (simp add: titledRun_fields sub_parts titled_sub)
  from addTitle_level_counts_every_directory
    [of "[]" "''sub''" afterSubA titledRun 0 "[]" subB afterSubAB]
  show ?thesis using v n addTitle_subB by simp
qed

subsection \<open>Writing a key twice\<close>

text \<open>
  C2, as the claim states it, fails: processing \<open>subA\<close> a second time in the same run
  raises no error, and the entry of its path is replaced by a different one (the second
  one has no heading for the directory).
\<close>

theorem addTitle_twice_counterexample:
  "addTitle titledRun noTitles subA = Inr afterSubA
   \<and> addTitle titledRun afterSubA subA = Inr afterSubAA
   \<and> fileTitleIndex afterSubA (path subA) = Some entrySubA
   \<and> fileTitleIndex afterSubAA (path subA) = Some entrySubAAgain
   \<and> entrySubA \<noteq> entrySubAAgain"
  by (simp add: addTitle_subA addTitle_subA_again)
    (simp add: afterSubA_def afterSubAA_def sub_paths entrySubA_def entrySubAAgain_def)

text \<open>
  C2, amended: the key of a file is written every time the file is processed: processing
  a path again raises no error (with a start level of at least 0 \<^verbatim>\<open>addTitle\<close> always
  succeeds, whatever the index holds) and leaves the title of the later processing
  under the key. Besides the key of the file, \<^verbatim>\<open>addTitle\<close> writes only keys of
  directories that have not been visited; every other key keeps its entry.
\<close>

theorem addTitle_overwrites:
  "(0 \<le> startTitleLevelAt this \<longrightarrow> (\<exists>st1. addTitle this st f = Inr st1))
   \<and> (addTitle this st f = Inr st'
      \<longrightarrow> map_option title (fileTitleIndex st' (path f)) = Some (fileTitleOf this f)
        \<and> (\<forall>k. k \<noteq> path f \<and> k \<notin> newDirKeys this st f
              \<longrightarrow> fileTitleIndex st' k = fileTitleIndex st k))"
proof (intro conjI impI allI)
  assume "0 \<le> startTitleLevelAt this"
  then show "\<exists>st1. addTitle this st f = Inr st1" by (rule addTitle_ok)
next
  assume "addTitle this st f = Inr st'"
  from addTitle_entry [OF this]
  show "map_option title (fileTitleIndex st' (path f)) = Some (fileTitleOf this f)" by auto
next
  fix k
  assume "addTitle this st f = Inr st'" and "k \<noteq> path f \<and> k \<notin> newDirKeys this st f"
  then show "fileTitleIndex st' k = fileTitleIndex st k" by (auto intro: addTitle_keys)
qed

text \<open>
  For \<open>subA\<close> processed again: the title under its path is the one of the second
  processing, and the entry of the visited directory \<^verbatim>\<open>/root/sub\<close> is the one it had.
\<close>

theorem addTitle_overwrites_witness:
  "map_option title (fileTitleIndex afterSubAA (path subA)) = Some ''A''
   \<and> fileTitleIndex afterSubAA ''/root/sub'' = fileTitleIndex afterSubA ''/root/sub''"
proof -
  have t: "fileTitleOf titledRun subA = ''A''"
    by (simp add: fileTitleOf_def titleFromMeta_def titledRun_fields sub_names)
  have k: "''/root/sub'' \<noteq> path subA \<and> ''/root/sub'' \<notin> newDirKeys titledRun afterSubA subA"
    by (simp add: sub_paths newDirKeys_def titledRun_fields sub_parts afterSubA_def sep_def)
  from addTitle_overwrites [of titledRun afterSubA subA afterSubAA]
  show ?thesis using t k addTitle_subA_again by simp
qed

section \<open>Properties of the slug\<close>

lemma code_simps: "code (CHR ''_'') = 95" "code (CHR ''-'') = 45" "code (CHR '' '') = 32"
  by (simp_all add: code_def)

lemma toLowerChar_not_upper: "\<not> isUpper (toLowerChar c)"
proof -
  have "code c < 256" by (simp add: code_def)
  then show ?thesis
    by (auto simp: toLowerChar_def isUpper_def code_def)
qed

lemma keep_lower_slug:
  assumes "\<not> isUpper c" "isWordChar c \<or> c = CHR ''-'' \<or> c = CHR '' ''"
  shows "slugChar (if isSpace c then CHR ''-'' else c)"
  using assms by (auto simp: slugChar_def isWordChar_def isSpace_def isLower_def isDigit_def code_simps)

lemma set_stripTrailingHyphens: "set (stripTrailingHyphens s) \<subseteq> set s"
  by (auto simp: stripTrailingHyphens_def dest: set_dropWhileD)

lemma gitHubLink_chars: "c \<in> set (gitHubLink s) \<Longrightarrow> slugChar c"
proof -
  assume "c \<in> set (gitHubLink s)"
  then have "c \<in> set (spacesToHyphens (keepSlugChars (toLowerCase (trim s))))"
    using set_stripTrailingHyphens unfolding gitHubLink_def by blast
  then obtain d where d: "d \<in> set (keepSlugChars (toLowerCase (trim s)))"
      and c: "c = (if isSpace d then CHR ''-'' else d)"
    by (auto simp: spacesToHyphens_def)
  from d have "d \<in> set (toLowerCase (trim s))" by (simp add: keepSlugChars_def)
  then have "\<not> isUpper d"
    by (auto simp: toLowerCase_def toLowerChar_not_upper)
  moreover from d have "isWordChar d \<or> d = CHR ''-'' \<or> d = CHR '' ''"
    by (auto simp: keepSlugChars_def)
  ultimately show ?thesis unfolding c by (rule keep_lower_slug)
qed

lemma stripTrailingHyphens_last:
  "stripTrailingHyphens s = [] \<or> last (stripTrailingHyphens s) \<noteq> CHR ''-''"
proof (cases "dropWhile (\<lambda>c. c = CHR ''-'') (rev s)")
  case Nil
  then show ?thesis by (simp add: stripTrailingHyphens_def)
next
  case (Cons x xs)
  then have "x \<noteq> CHR ''-''" using hd_dropWhile[of "\<lambda>c. c = CHR ''-''" "rev s"] by auto
  then show ?thesis using Cons by (simp add: stripTrailingHyphens_def)
qed

lemma slugChar_facts:
  assumes "slugChar c"
  shows "\<not> isSpace c" "toLowerChar c = c" "isWordChar c \<or> c = CHR ''-'' \<or> c = CHR '' ''"
  using assms
  by (auto simp: slugChar_def isSpace_def toLowerChar_def isWordChar_def isUpper_def
      isLower_def isDigit_def code_simps)

lemma dropWhile_none: "\<forall>c\<in>set xs. \<not> P c \<Longrightarrow> dropWhile P xs = xs"
  by (cases xs) auto

lemma trim_no_space: "\<forall>c\<in>set s. \<not> isSpace c \<Longrightarrow> trim s = s"
  by (simp add: trim_def dropWhile_none)

lemma stripTrailingHyphens_id:
  "s = [] \<or> last s \<noteq> CHR ''-'' \<Longrightarrow> stripTrailingHyphens s = s"
  by (cases s rule: rev_cases) (auto simp: stripTrailingHyphens_def)

lemma gitHubLink_fixed:
  assumes "\<forall>c\<in>set r. slugChar c" "r = [] \<or> last r \<noteq> CHR ''-''"
  shows "gitHubLink r = r"
proof -
  have 1: "trim r = r" using assms(1) by (intro trim_no_space) (auto dest: slugChar_facts(1))
  have 2: "toLowerCase r = r" unfolding toLowerCase_def
    using assms(1) by (intro map_idI) (auto dest: slugChar_facts(2))
  have 3: "keepSlugChars r = r" unfolding keepSlugChars_def
    using assms(1) by (intro filter_True) (auto dest: slugChar_facts(3))
  have 4: "spacesToHyphens r = r" unfolding spacesToHyphens_def
    using assms(1) by (intro map_idI) (auto dest: slugChar_facts(1))
  show ?thesis unfolding gitHubLink_def 1 2 3 4 using assms(2) by (rule stripTrailingHyphens_id)
qed

text \<open>The slug of a slug is the slug itself.\<close>

lemma gitHubLink_idem: "gitHubLink (gitHubLink s) = gitHubLink s"
proof (rule gitHubLink_fixed)
  show "\<forall>c\<in>set (gitHubLink s). slugChar c" by (auto dest: gitHubLink_chars)
  show "gitHubLink s = [] \<or> last (gitHubLink s) \<noteq> CHR ''-''"
    unfolding gitHubLink_def by (rule stripTrailingHyphens_last)
qed

section \<open>Properties of the link rewriter and of the run\<close>

text \<open>Where the first hash of a path without a hash stands.\<close>

lemma no_hash_split:
  "HASH \<notin> set p \<Longrightarrow> dropWhile (\<lambda>c. c \<noteq> HASH) p = [] \<and> takeWhile (\<lambda>c. c \<noteq> HASH) p = p"
  by (induction p) auto

text \<open>A target without a hash is looked up as it is.\<close>

lemma newLink_fragmentless:
  assumes "HASH \<notin> set (join (dirname (path f)) link)"
  shows "newLink st f link
         = (case getTitle st (join (dirname (path f)) link) of
              Inl e \<Rightarrow> Inl e
            | Inr t \<Rightarrow> Inr (HASH # gitHubLink (title t)))"
proof -
  define p where "p = join (dirname (path f)) link"
  have "HASH \<notin> set p" using assms by (simp add: p_def)
  from no_hash_split [OF this]
  have d: "dropWhile (\<lambda>c. c \<noteq> HASH) p = []" and t: "takeWhile (\<lambda>c. c \<noteq> HASH) p = p"
    by blast+
  show ?thesis unfolding newLink_def Let_def p_def [symmetric] d t by simp
qed

text \<open>The callback reads the path of the file only.\<close>

lemma rewriteLink_body: "rewriteLink st (f\<lparr>body := x\<rparr>) = rewriteLink st f"
  by (rule ext) (simp add: rewriteLink_def newLink_def)

text \<open>The scan of one link, and of the text around it.\<close>

lemma transformFrom_plain:
  "CHR ''['' \<notin> set pre \<Longrightarrow> transformFrom f Plain (pre @ xs) = pre @ transformFrom f Plain xs"
  by (induction pre) auto

lemma transformFrom_text:
  "CHR ''['' \<notin> set t \<Longrightarrow> CHR '']'' \<notin> set t \<Longrightarrow>
   transformFrom f (LinkText acc) (t @ CHR '']'' # xs) = transformFrom f (Closed (rev t @ acc)) xs"
  by (induction t arbitrary: acc) auto

lemma transformFrom_target:
  "CHR '')'' \<notin> set l \<Longrightarrow>
   transformFrom f (Target t acc) (l @ CHR '')'' # xs)
   = CHR ''['' # rev t @ '']('' @ newTarget f (rev acc @ l) @ '')'' @ transformFrom f Plain xs"
  by (induction l arbitrary: acc) auto

lemma transformLinks_link:
  assumes "CHR ''['' \<notin> set pre" "CHR ''['' \<notin> set t" "CHR '']'' \<notin> set t" "CHR '')'' \<notin> set l"
  shows "transformLinks (pre @ ''['' @ t @ '']('' @ l @ '')'' @ post) f
         = pre @ ''['' @ t @ '']('' @ newTarget f l @ '')'' @ transformLinks post f"
proof -
  have "transformFrom f Plain (pre @ CHR ''['' # t @ CHR '']'' # CHR ''('' # l @ CHR '')'' # post)
        = pre @ transformFrom f (LinkText []) (t @ CHR '']'' # CHR ''('' # l @ CHR '')'' # post)"
    using assms(1) by (simp add: transformFrom_plain)
  also have "transformFrom f (LinkText []) (t @ CHR '']'' # CHR ''('' # l @ CHR '')'' # post)
        = transformFrom f (Target (rev t) []) (l @ CHR '')'' # post)"
    using assms(2,3) by (simp add: transformFrom_text)
  also have "\<dots> = CHR ''['' # t @ '']('' @ newTarget f l @ '')'' @ transformFrom f Plain post"
    using assms(4) by (simp add: transformFrom_target)
  finally show ?thesis by (simp add: transformLinks_def)
qed

lemma modifyLinks_link:
  assumes "CHR ''['' \<notin> set pre" "CHR ''['' \<notin> set t" "CHR '']'' \<notin> set t" "CHR '')'' \<notin> set l"
  shows "modifyLinks st (f\<lparr>body := pre @ ''['' @ t @ '']('' @ l @ '')'' @ post\<rparr>)
         = pre @ ''['' @ t @ '']('' @ newTarget (rewriteLink st f) l @ '')''
           @ modifyLinks st (f\<lparr>body := post\<rparr>)"
  using transformLinks_link [OF assms, of post "rewriteLink st f"]
  by (simp add: modifyLinks_def rewriteLink_body)






subsection \<open>The runs without options\<close>

text \<open>
  The fields of \<open>plainRun\<close> and of its files, the slugs and the targets of their links, and
  the two loops of \<^verbatim>\<open>concatFiles\<close> over \<open>plainA\<close> and \<open>plainB\<close> and over \<open>dottedA\<close>.
\<close>

lemma plainRun_fields:
  "\<not> dirNameAsTitle plainRun" "\<not> fileNameAsTitle plainRun" "startTitleLevelAt plainRun = 1"
  "dir plainRun = ''/root''" "titleKey plainRun = None" "cwd plainRun = ''/''"
  "\<not> decreaseTitleLevels plainRun" "joinString plainRun = [NL]" "\<not> toc plainRun"
  "mainTitle plainRun = None"
  by (simp_all add: plainRun_def constructor_def noOptions_def orElse_def)

lemma plain_fields:
  "path plainA = ''/root/a.md''" "body plainA = ''[b](b.md) [c](c.md)''"
  "path plainB = ''/root/b.md''" "body plainB = ''[a](a.md)''"
  "path dottedA = ''/root/./a.md''" "body dottedA = ''[self](a.md)''"
  "path httpdDoc = ''/root/httpd.md''" "body httpdDoc = ''daemon''"
  "path httpdRef = ''/root/index.md''" "body httpdRef = ''[d](httpd.md)''"
  by (simp_all add: plainA_def plainB_def dottedA_def httpdDoc_def httpdRef_def)

lemma plain_names:
  "gitHubLink (relative ''/'' ''/root'' ''/root/a.md'') = ''amd''"
  "gitHubLink (relative ''/'' ''/root'' ''/root/b.md'') = ''bmd''"
  "gitHubLink (relative ''/'' ''/root'' ''/root/./a.md'') = ''amd''"
  "gitHubLink (relative ''/'' ''/root'' ''/root/httpd.md'') = ''httpdmd''"
  "gitHubLink (relative ''/'' ''/root'' ''/root/index.md'') = ''indexmd''"
  "gitHubLink ''amd'' = ''amd''" "gitHubLink ''bmd'' = ''bmd''"
  "gitHubLink ''My File.md'' = ''my-filemd''"
  by code_simp+

lemma plain_targets:
  "join (dirname ''/root/a.md'') ''b.md'' = ''/root/b.md''"
  "join (dirname ''/root/a.md'') ''c.md'' = ''/root/c.md''"
  "join (dirname ''/root/b.md'') ''a.md'' = ''/root/a.md''"
  "join (dirname ''/root/./a.md'') ''a.md'' = ''/root/a.md''"
  "join (dirname ''/root/index.md'') ''httpd.md'' = ''/root/httpd.md''"
  "\<not> startsWith ''a.md'' ''http''" "\<not> startsWith ''b.md'' ''http''"
  "\<not> startsWith ''c.md'' ''http''" "startsWith ''httpd.md'' ''http''"
  by code_simp+

lemma anchor_literals:
  "anchor ''amd'' = anchorAmd" "anchor ''bmd'' = anchorBmd"
  "anchor ''httpdmd'' = [NL] @ ''<a name=\"httpdmd\"></a>'' @ [NL, NL]"
  "anchor ''indexmd'' = [NL] @ ''<a name=\"indexmd\"></a>'' @ [NL, NL]"
  by (simp_all add: anchor_def anchorAmd_def anchorBmd_def)

lemma titlePass_plain: "titlePass plainRun noTitles [plainA, plainB] = Inr (plainTitles, plainFiles)"
  by (simp add: Let_def addTitle_def getTitle_def plainRun_fields plain_names titleFromMeta_def
      noTitles_def plainTitles_def plainFiles_def plain_fields decreaseTitleLevelsBy_def
      anchor_literals)

lemma rewriteLink_plain:
  "rewriteLink plainTitles plainA ''b.md'' = ''#bmd''"
  "rewriteLink plainTitles plainA ''c.md'' = []"
  "rewriteLink plainTitles plainB ''a.md'' = ''#amd''"
  by (simp_all add: rewriteLink_def newLink_def Let_def getTitle_def plainTitles_def plain_fields
      plain_names plain_targets)

lemma linkPass_plain:
  "map body (linkPass plainTitles plainFiles)
   = [anchorAmd @ ''[b](#bmd) [c](c.md)'', anchorBmd @ ''[a](#amd)'']"
  by (simp add: linkPass_def plainFiles_def modifyLinks_def transformLinks_def anchorAmd_def
      anchorBmd_def rewriteLink_body rewriteLink_plain newTarget_def)

lemma concatFiles_plain:
  "concatFiles transform plainRun [plainA, plainB] = Inr plainOutput"
  unfolding concatFiles_def titlePass_plain sum.case prod.case linkPass_plain
  by (simp add: addGlobalTitleAndToc_def plainRun_fields orElse_def plainOutput_def)






subsection \<open>Title errors\<close>




subsection \<open>Links to files outside the set\<close>




subsection \<open>The join string\<close>

text \<open>The separator stands before every part but the first.\<close>

lemma joinWith_Cons: "joinWith j (x # xs) = x @ concat (map (\<lambda>y. j @ y) xs)"
  by (induction xs arbitrary: x) simp_all

text \<open>
  C8, as the claim states it, fails for the empty \<^verbatim>\<open>joinString\<close>: it is provided, but
  the bodies are joined by one newline and not by the two that wrapping it would give.
\<close>

theorem joinString_empty_counterexample:
  "joinString (constructor ''/'' ''/root'' (noOptions\<lparr>opt_joinString := Some []\<rparr>)) \<noteq> [NL] @ [] @ [NL]
   \<and> joinWith (joinString (constructor ''/'' ''/root'' (noOptions\<lparr>opt_joinString := Some []\<rparr>)))
       [''one'', ''two''] = ''one'' @ [NL] @ ''two''"
  by (simp add: constructor_def noOptions_def)

text \<open>
  C8, amended: the bodies are joined, in order, by the join string of the concatenator,
  which is one newline when \<^verbatim>\<open>joinString\<close> is not provided or is empty, and
  \<open>s\<close> wrapped in newlines on both sides for every non-empty \<^verbatim>\<open>joinString\<close> \<open>s\<close>.
\<close>

theorem joinString_wrapped:
  "(opt_joinString opts = None \<longrightarrow> joinString (constructor wd d opts) = [NL])
   \<and> (opt_joinString opts = Some [] \<longrightarrow> joinString (constructor wd d opts) = [NL])
   \<and> (opt_joinString opts = Some s \<and> s \<noteq> [] \<longrightarrow> joinString (constructor wd d opts) = [NL] @ s @ [NL])
   \<and> (titlePass (constructor wd d opts) noTitles files = Inr (st, files1)
      \<longrightarrow> concatFiles transform (constructor wd d opts) files
          = Inr (addGlobalTitleAndToc transform (constructor wd d opts)
                  (joinWith (joinString (constructor wd d opts)) (map body (linkPass st files1)))))
   \<and> joinWith j (x # xs) = x @ concat (map (\<lambda>y. j @ y) xs)"
  by (simp add: constructor_def concatFiles_def joinWith_Cons)

text \<open>
  With no option the join string is a newline; with \<^verbatim>\<open>---\<close> it is \<^verbatim>\<open>---\<close> between two
  newlines, which then stands between the three bodies.
\<close>

theorem joinString_wrapped_witness:
  "joinString (constructor ''/'' ''/root'' noOptions) = [NL]
   \<and> joinString (constructor ''/'' ''/root'' (noOptions\<lparr>opt_joinString := Some ''---''\<rparr>))
     = [NL] @ ''---'' @ [NL]
   \<and> joinWith ([NL] @ ''---'' @ [NL]) [''one'', ''two'', ''three'']
     = ''one'' @ [NL] @ ''---'' @ [NL] @ ''two'' @ [NL] @ ''---'' @ [NL] @ ''three''"
proof -
  have n: "opt_joinString noOptions = None" by (simp add: noOptions_def)
  have s: "opt_joinString (noOptions\<lparr>opt_joinString := Some ''---''\<rparr>) = Some ''---'' \<and> ''---'' \<noteq> []"
    by simp
  from joinString_wrapped [of noOptions "''/''" "''/root''" "[]"]
    joinString_wrapped [of "noOptions\<lparr>opt_joinString := Some ''---''\<rparr>" "''/''" "''/root''" "''---''"
      _ _ _ _ "[NL] @ ''---'' @ [NL]" "''one''" "[''two'', ''three'']"]
  show ?thesis using n s by simp
qed

subsection \<open>The round trip\<close>

text \<open>Between absolute paths the working directory plays no part.\<close>

lemma relative_absolute:
  "isAbsolute a \<Longrightarrow> isAbsolute b \<Longrightarrow> relative wd a b = relative [] a b"
  by (simp add: relative_def resolve_def)

lemma titledOptions_fields:
  "dirNameAsTitle (constructor wd ''/root'' titledOptions)"
  "fileNameAsTitle (constructor wd ''/root'' titledOptions)"
  "startTitleLevelAt (constructor wd ''/root'' titledOptions) = 1" 
  "dir (constructor wd ''/root'' titledOptions) = ''/root''"
  "titleKey (constructor wd ''/root'' titledOptions) = None"
  "cwd (constructor wd ''/root'' titledOptions) = wd"
  "\<not> decreaseTitleLevels (constructor wd ''/root'' titledOptions)"
  "joinString (constructor wd ''/root'' titledOptions) = [NL]"
  "\<not> toc (constructor wd ''/root'' titledOptions)"
  "mainTitle (constructor wd ''/root'' titledOptions) = None"
  by (simp_all add: constructor_def titledOptions_def noOptions_def orElse_def)

lemma doc_paths: "path docA = ''/root/a.md''" "path docB = ''/root/sub/b.md''"
  "body docA = ''# A'' @ [NL]" "body docB = ''[link](../a.md)''"
  by (simp_all add: docA_def docB_def)

lemma doc_dirnames: "dirname ''/root/a.md'' = ''/root''" "dirname ''/root/sub/b.md'' = ''/root/sub''"
  "relative [] ''/root'' ''/root/sub'' = ''sub''" "split SLASH ''sub'' = [''sub'']"
  "isAbsolute ''/root''" "isAbsolute ''/root/sub''"
  by code_simp+

lemma doc_parts:
  "getDirParts (constructor wd ''/root'' titledOptions) docA = []"
  "getDirParts (constructor wd ''/root'' titledOptions) docB = [''sub'']"
  by (simp_all add: getDirParts_def titledOptions_fields doc_paths doc_dirnames relative_absolute)

lemma doc_names: "startCase ''sub'' = ''Sub''" "titleFromFileName docA = ''A''"
  "titleFromFileName docB = ''B''" "join ''/root'' ''sub'' = ''/root/sub''"
  "join ''/root/sub'' ''../a.md'' = ''/root/a.md''" "gitHubLink ''A'' = ''a''"
  "\<not> startsWith ''../a.md'' ''http''"
  by code_simp+

lemma titlePass_docs:
  "titlePass (constructor wd ''/root'' titledOptions) noTitles [docA, docB]
   = Inr (docTitles, docFiles)"
  by (simp add: Let_def addTitle_def getTitle_def titledOptions_fields doc_parts doc_names repeatHash_simps
      titleFromMeta_def noTitles_def docTitles_def docFiles_def entrySub_def doc_paths sep_def
      titleSuffix_def decreaseTitleLevelsBy_def)

lemma link_docB:
  "rewriteLink docTitles (docB\<lparr>body := x\<rparr>) ''../a.md'' = ''#a''"
  by (simp add: rewriteLink_def newLink_def Let_def doc_paths doc_dirnames doc_names getTitle_def docTitles_def)

lemma linkPass_docs:
  "map body (linkPass docTitles docFiles)
   = [''# A'' @ [NL, NL] @ ''# A'' @ [NL],
      ''# Sub'' @ [NL, NL] @ ''## B'' @ [NL, NL] @ ''[link](#a)'']"
  by (simp add: docFiles_def linkPass_def modifyLinks_def transformLinks_def link_docB
      newTarget_def)

text \<open>
  C5: for \<^verbatim>\<open>a.md\<close> with the body \<^verbatim>\<open># A\<close> and a newline, and \<^verbatim>\<open>sub/b.md\<close> with the body
  \<^verbatim>\<open>[link](../a.md)\<close>, processed in that order with \<^verbatim>\<open>dirNameAsTitle\<close> and
  \<^verbatim>\<open>fileNameAsTitle\<close> and the other options left out, the output is \<open>roundTripOutput\<close>:
  it has a heading line for \<^verbatim>\<open>A\<close>, one for \<^verbatim>\<open>Sub\<close> and one for \<^verbatim>\<open>B\<close>, and the link in the
  body of \<^verbatim>\<open>b.md\<close> has the target \<^verbatim>\<open>#a\<close>.
\<close>

theorem concatFiles_round_trip:
  "concatFiles transform (constructor wd ''/root'' titledOptions) [docA, docB] = Inr roundTripOutput"
  unfolding concatFiles_def titlePass_docs sum.case prod.case linkPass_docs
  by (simp add: addGlobalTitleAndToc_def titledOptions_fields orElse_def roundTripOutput_def)

text \<open>
  With the working directory \<^verbatim>\<open>/\<close>, that is for \<open>titledRun\<close>: the output, and the lines
  it contains.
\<close>

theorem concatFiles_round_trip_witness:
  "concatFiles (\<lambda>s n. (False, s)) titledRun [docA, docB] = Inr roundTripOutput
   \<and> includesStr roundTripOutput (''# A'' @ [NL])
   \<and> includesStr roundTripOutput (''# Sub'' @ [NL])
   \<and> includesStr roundTripOutput (''## B'' @ [NL])
   \<and> includesStr roundTripOutput ''[link](#a)''"
proof -
  have "includesStr roundTripOutput (''# A'' @ [NL])"
    and "includesStr roundTripOutput (''# Sub'' @ [NL])"
    and "includesStr roundTripOutput (''## B'' @ [NL])"
    and "includesStr roundTripOutput ''[link](#a)''"
    by code_simp+
  then show ?thesis
    using concatFiles_round_trip [of "\<lambda>s n. (False, s)" "''/''"] by (simp add: titledRun_def)
qed

subsection \<open>The anchor of a file without a title\<close>

text \<open>The run over \<open>httpdDoc\<close> and \<open>httpdRef\<close>.\<close>

lemma concatFiles_httpd:
  "concatFiles transform plainRun [httpdDoc, httpdRef] = Inr httpdOutput"
proof -
  define st where "st = \<lparr>visitedDirs = {},
      fileTitleIndex =
        [''/root/httpd.md'' \<mapsto> \<lparr>title = ''httpdmd'', level = 0,
                                 md = [NL] @ ''<a name=\"httpdmd\"></a>'' @ [NL, NL]\<rparr>,
         ''/root/index.md'' \<mapsto> \<lparr>title = ''indexmd'', level = 0,
                                 md = [NL] @ ''<a name=\"indexmd\"></a>'' @ [NL, NL]\<rparr>]\<rparr>"
  define fs where "fs =
     [httpdDoc\<lparr>body := [NL] @ ''<a name=\"httpdmd\"></a>'' @ [NL, NL] @ ''daemon''\<rparr>,
      httpdRef\<lparr>body := [NL] @ ''<a name=\"indexmd\"></a>'' @ [NL, NL] @ ''[d](httpd.md)''\<rparr>]"
  have tp: "titlePass plainRun noTitles [httpdDoc, httpdRef] = Inr (st, fs)"
    by (simp add: Let_def addTitle_def getTitle_def plainRun_fields plain_names titleFromMeta_def
        noTitles_def st_def fs_def plain_fields decreaseTitleLevelsBy_def anchor_literals)
  have r: "rewriteLink st httpdRef ''httpd.md'' = ''httpd.md''"
    by (simp add: rewriteLink_def plain_targets)
  have lp: "map body (linkPass st fs)
            = [[NL] @ ''<a name=\"httpdmd\"></a>'' @ [NL, NL] @ ''daemon'',
               [NL] @ ''<a name=\"indexmd\"></a>'' @ [NL, NL] @ ''[d](httpd.md)'']"
    by (simp add: linkPass_def fs_def modifyLinks_def transformLinks_def rewriteLink_body r
        newTarget_def)
  show ?thesis unfolding concatFiles_def tp sum.case prod.case lp
    by (simp add: addGlobalTitleAndToc_def plainRun_fields orElse_def httpdOutput_def)
qed

text \<open>
  C9, as the claim states it, fails for a link that starts with \<^verbatim>\<open>http\<close>. \<open>httpdDoc\<close> has
  no title of its own, and the link \<^verbatim>\<open>httpd.md\<close> of \<open>httpdRef\<close> has no fragment and
  resolves to it. The anchor before the body of \<open>httpdDoc\<close> has the name \<^verbatim>\<open>httpdmd\<close>, but
  the link is not rewritten to \<^verbatim>\<open>#httpdmd\<close>: it keeps its target.
\<close>

theorem http_prefixed_link_counterexample:
  "\<not> titled plainRun httpdDoc
   \<and> join (dirname (path httpdRef)) ''httpd.md'' = path httpdDoc
   \<and> HASH \<notin> set ''httpd.md''
   \<and> concatFiles (\<lambda>s n. (False, s)) plainRun [httpdDoc, httpdRef] = Inr httpdOutput
   \<and> includesStr httpdOutput ''<a name=\"httpdmd\"></a>''
   \<and> includesStr httpdOutput ''[d](httpd.md)''
   \<and> \<not> includesStr httpdOutput ''[d](#httpdmd)''"
proof -
  have "includesStr httpdOutput ''<a name=\"httpdmd\"></a>''"
    and "includesStr httpdOutput ''[d](httpd.md)''"
    and "\<not> includesStr httpdOutput ''[d](#httpdmd)''"
    by code_simp+
  moreover have "concatFiles (\<lambda>s n. (False, s)) plainRun [httpdDoc, httpdRef] = Inr httpdOutput"
    by (rule concatFiles_httpd)
  moreover have "\<not> titled plainRun httpdDoc"
    and "join (dirname (path httpdRef)) ''httpd.md'' = path httpdDoc"
    and "HASH \<notin> set ''httpd.md''"
    by (simp_all add: titled_def titleFromMeta_def plainRun_fields plain_fields plain_targets)
  ultimately show ?thesis by blast
qed

text \<open>
  C9, amended: the slug function is idempotent, for every string. Consequently, for a
  file \<open>f\<close> of a run that has no title of its own (no title in its metadata,
  \<^verbatim>\<open>fileNameAsTitle\<close> off), the name of the anchor put before its body is the target,
  after the hash, that the link rewriter gives to every link without a fragment that
  does not start with \<^verbatim>\<open>http\<close> and resolves to \<open>f\<close>; a link that starts with \<^verbatim>\<open>http\<close> is
  returned as it is. The files after \<open>f\<close> are other files than \<open>f\<close>, and none of them lies
  below a directory with the path of \<open>f\<close>, as it is with the files of a file system; with
  a start level of at least 0 the first loop returns its titles and files.
\<close>

theorem gitHubLink_idempotent_anchor:
  "gitHubLink (gitHubLink s) = gitHubLink s
   \<and> (0 \<le> startTitleLevelAt this
      \<longrightarrow> (\<exists>st0 files0. titlePass this noTitles (before @ f # later) = Inr (st0, files0)))
   \<and> (titlePass this noTitles (before @ f # later) = Inr (st, files1)
      \<and> \<not> titled this f
      \<and> (\<forall>g\<in>set later. path g \<noteq> path f \<and> path f \<notin> dirKeys this g)
      \<and> join (dirname (path r)) link = path f
      \<and> HASH \<notin> set (path f)
      \<longrightarrow> (\<exists>pre. body (files1 ! length before)
                  = pre @ [NL] @ ''<a name=\"''
                    @ gitHubLink (relative (cwd this) (dir this) (path f)) @ ''\"></a>''
                    @ [NL, NL]
                    @ decreaseTitleLevelsBy (decreaseTitleLevels this) (body f)
                        (startTitleLevelAt this - 1
                         + (if dirNameAsTitle this then int (length (getDirParts this f)) else 0)))
          \<and> (\<not> startsWith link ''http''
             \<longrightarrow> rewriteLink st r link
                 = HASH # gitHubLink (relative (cwd this) (dir this) (path f))
               \<and> (CHR ''['' \<notin> set t \<and> CHR '']'' \<notin> set t \<and> CHR '')'' \<notin> set link
                  \<longrightarrow> modifyLinks st (r\<lparr>body := ''['' @ t @ '']('' @ link @ '')''\<rparr>)
                      = ''['' @ t @ ''](#''
                        @ gitHubLink (relative (cwd this) (dir this) (path f)) @ '')''))
          \<and> (startsWith link ''http'' \<longrightarrow> rewriteLink st r link = link))"
proof (intro conjI impI)
  show "gitHubLink (gitHubLink s) = gitHubLink s" by (rule gitHubLink_idem)
next
  assume "0 \<le> startTitleLevelAt this"
  from titlePass_ok [OF this, of noTitles "before @ f # later"]
  show "\<exists>st0 files0. titlePass this noTitles (before @ f # later) = Inr (st0, files0)"
    by (metis prod.exhaust)
next
  assume a: "titlePass this noTitles (before @ f # later) = Inr (st, files1)
      \<and> \<not> titled this f
      \<and> (\<forall>g\<in>set later. path g \<noteq> path f \<and> path f \<notin> dirKeys this g)
      \<and> join (dirname (path r)) link = path f
      \<and> HASH \<notin> set (path f)"
  define name where "name = gitHubLink (relative (cwd this) (dir this) (path f))"
  define lv where "lv = startTitleLevelAt this - 1
                         + (if dirNameAsTitle this then int (length (getDirParts this f)) else 0)"
  from a titlePass_split [of this noTitles before f later st files1]
  obtain st1 st2 e fs1 fs2 where add: "addTitle this st1 f = Inr st2"
    and get: "getTitle st2 (path f) = Inr e"
    and rest: "titlePass this st2 later = Inr (st, fs2)"
    and len: "length fs1 = length before"
    and fs: "files1 = fs1 @ f\<lparr>body := md e @ decreaseTitleLevelsBy (decreaseTitleLevels this) (body f) (level e)\<rparr> # fs2"
    by blast
  have nt: "\<not> titled this f" using a by simp
  then have fto: "fileTitleOf this f = name"
    by (simp add: titled_def fileTitleOf_def name_def)
  from addTitle_entry [OF add] nt fto obtain tm where
    ent: "fileTitleIndex st2 (path f) = Some \<lparr>title = name, level = lv, md = tm @ anchor name\<rparr>"
    by (auto simp: lv_def)
  then have e: "e = \<lparr>title = name, level = lv, md = tm @ anchor name\<rparr>"
    using get by (simp add: getTitle_def)
  have "body (files1 ! length before) = tm @ anchor name
          @ decreaseTitleLevelsBy (decreaseTitleLevels this) (body f) lv"
    unfolding fs len [symmetric] by (simp add: e)
  then have "body (files1 ! length before) = tm @ [NL] @ ''<a name=\"'' @ name @ ''\"></a>''
          @ [NL, NL] @ decreaseTitleLevelsBy (decreaseTitleLevels this) (body f) lv"
    by (simp add: anchor_def)
  then show "\<exists>pre. body (files1 ! length before)
                  = pre @ [NL] @ ''<a name=\"''
                    @ gitHubLink (relative (cwd this) (dir this) (path f)) @ ''\"></a>''
                    @ [NL, NL]
                    @ decreaseTitleLevelsBy (decreaseTitleLevels this) (body f)
                        (startTitleLevelAt this - 1
                         + (if dirNameAsTitle this then int (length (getDirParts this f)) else 0))"
    unfolding name_def lv_def by blast
  have keep: "fileTitleIndex st (path f) = fileTitleIndex st2 (path f)"
    using rest a by (intro titlePass_keeps) auto
  have nh: "HASH \<notin> set (join (dirname (path r)) link)" using a by simp
  {
    assume http: "\<not> startsWith link ''http''"
    have "newLink st r link = Inr (HASH # gitHubLink name)"
      using a keep ent by (simp add: newLink_fragmentless [OF nh] getTitle_def)
    then show rl: "rewriteLink st r link = HASH # gitHubLink (relative (cwd this) (dir this) (path f))"
      using http by (simp add: rewriteLink_def name_def gitHubLink_idem)
    assume "CHR ''['' \<notin> set t \<and> CHR '']'' \<notin> set t \<and> CHR '')'' \<notin> set link"
    then show "modifyLinks st (r\<lparr>body := ''['' @ t @ '']('' @ link @ '')''\<rparr>)
                      = ''['' @ t @ ''](#''
                        @ gitHubLink (relative (cwd this) (dir this) (path f)) @ '')''"
      using modifyLinks_link [where pre = "[]" and t = t and l = link and st = st and f = r
        and post = "[]"] rl
      by (simp add: newTarget_def modifyLinks_def transformLinks_def)
  }
  {
    assume "startsWith link ''http''"
    then show "rewriteLink st r link = link" by (simp add: rewriteLink_def)
  }
qed

text \<open>
  For the slug of a file name, and for \<open>plainA\<close>, which is processed before \<open>plainB\<close> and
  to which the link \<^verbatim>\<open>a.md\<close> of \<open>plainB\<close> resolves.
\<close>

theorem gitHubLink_idempotent_anchor_witness:
  "gitHubLink (gitHubLink ''My File.md'') = ''my-filemd''
   \<and> titlePass plainRun noTitles [plainA, plainB] = Inr (plainTitles, plainFiles)
   \<and> body (plainFiles ! 0) = [NL] @ ''<a name=\"amd\"></a>'' @ [NL, NL] @ ''[b](b.md) [c](c.md)''
   \<and> rewriteLink plainTitles plainB ''a.md'' = ''#amd''
   \<and> modifyLinks plainTitles (plainB\<lparr>body := ''[a](a.md)''\<rparr>) = ''[a](#amd)''
   \<and> concatFiles (\<lambda>s n. (False, s)) plainRun [plainA, plainB] = Inr plainOutput"
proof -
  have tp: "titlePass plainRun noTitles ([] @ plainA # [plainB]) = Inr (plainTitles, plainFiles)"
    unfolding append.simps by (rule titlePass_plain)
  have h: "titlePass plainRun noTitles ([] @ plainA # [plainB]) = Inr (plainTitles, plainFiles)
      \<and> \<not> titled plainRun plainA
      \<and> (\<forall>g\<in>set [plainB]. path g \<noteq> path plainA \<and> path plainA \<notin> dirKeys plainRun g)
      \<and> join (dirname (path plainB)) ''a.md'' = path plainA
      \<and> HASH \<notin> set (path plainA)"
    unfolding tp
    by (simp add: titled_def titleFromMeta_def dirKeys_def plainRun_fields plain_targets
        plain_fields)
  have w: "CHR ''['' \<notin> set ''a'' \<and> CHR '']'' \<notin> set ''a'' \<and> CHR '')'' \<notin> set ''a.md''"
    by simp
  have n: "gitHubLink (relative (cwd plainRun) (dir plainRun) (path plainA)) = ''amd''"
    by (simp add: plainRun_fields plain_fields plain_names)
  note inst = gitHubLink_idempotent_anchor
    [where s = "''My File.md''" and this = plainRun and before = "[]" and f = plainA
       and later = "[plainB]" and st = plainTitles and ?files1.0 = plainFiles
       and link = "''a.md''" and r = plainB and t = "''a''"]
  from inst have "gitHubLink (gitHubLink ''My File.md'') = ''my-filemd''"
    by (simp add: plain_names)
  moreover from inst h w plain_targets(6)
  have "rewriteLink plainTitles plainB ''a.md'' = ''#amd''"
    and "modifyLinks plainTitles (plainB\<lparr>body := ''[a](a.md)''\<rparr>) = ''[a](#amd)''"
    unfolding n by simp_all
  moreover have "body (plainFiles ! 0)
                 = [NL] @ ''<a name=\"amd\"></a>'' @ [NL, NL] @ ''[b](b.md) [c](c.md)''"
    by (simp add: plainFiles_def anchorAmd_def)
  moreover have "titlePass plainRun noTitles [plainA, plainB] = Inr (plainTitles, plainFiles)"
    by (rule titlePass_plain)
  moreover have "concatFiles (\<lambda>s n. (False, s)) plainRun [plainA, plainB] = Inr plainOutput"
    by (rule concatFiles_plain)
  ultimately show ?thesis by blast
qed

end
